theory Spec2Isabelle
  imports Complex_Main
begin

section \<open>JavaScript numbers\<close>

text \<open>
  A JavaScript number is an IEEE-754 double.  The model keeps the three special values
  apart and holds a finite double as the real number it stands for.  An arithmetic
  operation on finite doubles gives the exact result rounded to the nearest double, a
  tie going to the even significand (\<open>rnd\<close>): a result that rounds to \<open>2^1024\<close> or more
  in magnitude is an infinity, and one below half the smallest subnormal is 0.  The sign
  of zero is not modelled (a zero divisor counts as \<open>+0\<close>).  The special cases of each
  operator follow ECMA-262.
\<close>

datatype jsnum = Fin real | NaN | PInf | NInf

text \<open>The sign of an infinite result.\<close>

definition signed_inf :: "bool \<Rightarrow> jsnum" where
  "signed_inf positive = (if positive then PInf else NInf)"

text \<open>
  Rounding to a double.  \<open>floor_log2 y\<close> is the binade of a positive real, the \<open>k\<close> with
  \<open>2^k \<le> y < 2^(k+1)\<close>, found by halving or doubling; 1100 steps reach past both ends
  of the doubles, where the result no longer depends on it.  A double of binade \<open>k\<close> is a
  multiple of \<open>2^(k-52)\<close> (53 significant bits), and of \<open>2^-1074\<close> in the subnormal
  range: \<open>grid\<close> is that exponent, and \<open>rnd\<close> takes the nearest multiple.
\<close>

definition pow2 :: "int \<Rightarrow> real" where
  "pow2 k = power_int 2 k"

fun log2_down :: "nat \<Rightarrow> real \<Rightarrow> int" where
  "log2_down 0 y = 0"
| "log2_down (Suc fuel) y = (if y < 2 then 0 else 1 + log2_down fuel (y / 2))"

fun log2_up :: "nat \<Rightarrow> real \<Rightarrow> int" where
  "log2_up 0 y = 0"
| "log2_up (Suc fuel) y = (if 1 \<le> y then 0 else log2_up fuel (2 * y) - 1)"

definition floor_log2 :: "real \<Rightarrow> int" where
  "floor_log2 y = (if 1 \<le> y then log2_down 1100 y else log2_up 1100 y)"

definition grid :: "real \<Rightarrow> int" where
  "grid x = max (floor_log2 \<bar>x\<bar> - 52) (- 1074)"

definition half_even :: "real \<Rightarrow> int" where
  "half_even r =
     (let f = \<lfloor>r\<rfloor>; d = r - of_int f
      in if d < 1 / 2 then f else if 1 / 2 < d then f + 1 else if even f then f else f + 1)"

definition rnd :: "real \<Rightarrow> jsnum" where
  "rnd x =
     (let g = grid x; y = of_int (half_even (x / pow2 g)) * pow2 g
      in if pow2 1024 \<le> \<bar>y\<bar> then signed_inf (0 < x) else Fin y)"

fun jneg :: "jsnum \<Rightarrow> jsnum" where
  "jneg (Fin x) = Fin (- x)"
| "jneg NaN = NaN"
| "jneg PInf = NInf"
| "jneg NInf = PInf"

fun jadd :: "jsnum \<Rightarrow> jsnum \<Rightarrow> jsnum" where
  "jadd NaN _ = NaN"
| "jadd _ NaN = NaN"
| "jadd (Fin x) (Fin y) = rnd (x + y)"
| "jadd PInf NInf = NaN"
| "jadd NInf PInf = NaN"
| "jadd PInf _ = PInf"
| "jadd NInf _ = NInf"
| "jadd (Fin x) y = y"

definition jsub :: "jsnum \<Rightarrow> jsnum \<Rightarrow> jsnum" where
  "jsub a b = jadd a (jneg b)"

fun jmul :: "jsnum \<Rightarrow> jsnum \<Rightarrow> jsnum" where
  "jmul NaN _ = NaN"
| "jmul _ NaN = NaN"
| "jmul (Fin x) (Fin y) = rnd (x * y)"
| "jmul (Fin x) PInf = (if x = 0 then NaN else signed_inf (0 < x))"
| "jmul (Fin x) NInf = (if x = 0 then NaN else signed_inf (x < 0))"
| "jmul PInf (Fin y) = (if y = 0 then NaN else signed_inf (0 < y))"
| "jmul NInf (Fin y) = (if y = 0 then NaN else signed_inf (y < 0))"
| "jmul PInf PInf = PInf"
| "jmul PInf NInf = NInf"
| "jmul NInf PInf = NInf"
| "jmul NInf NInf = PInf"

fun jdiv :: "jsnum \<Rightarrow> jsnum \<Rightarrow> jsnum" where
  "jdiv NaN _ = NaN"
| "jdiv _ NaN = NaN"
| "jdiv (Fin x) (Fin y) =
     (if y = 0 then (if x = 0 then NaN else signed_inf (0 < x)) else rnd (x / y))"
| "jdiv (Fin x) _ = Fin 0"
| "jdiv PInf (Fin y) = signed_inf (0 \<le> y)"
| "jdiv NInf (Fin y) = signed_inf (y < 0)"
| "jdiv _ _ = NaN"

text \<open>
  \<open>Math.pow\<close> (Number::exponentiate), cases in the order of the standard.  For a finite
  base and exponent the standard asks for an approximation of the exact power; the model
  takes the exact power rounded to the nearest double, so it overflows to an infinity
  and underflows to 0 as the doubles do.
\<close>

fun jpow :: "jsnum \<Rightarrow> jsnum \<Rightarrow> jsnum" where
  "jpow _ NaN = NaN"
| "jpow b (Fin e) =
     (if e = 0 then Fin 1
      else case b of
        NaN \<Rightarrow> NaN
      | PInf \<Rightarrow> (if 0 < e then PInf else Fin 0)
      | NInf \<Rightarrow> (if 0 < e then (if e \<in> \<int> \<and> odd \<lfloor>e\<rfloor> then NInf else PInf) else Fin 0)
      | Fin x \<Rightarrow>
          (if x = 0 then (if 0 < e then Fin 0 else PInf)
           else if e \<in> \<int> then rnd (power_int x \<lfloor>e\<rfloor>)
           else if x < 0 then NaN
           else rnd (x powr e)))"
| "jpow NaN _ = NaN"
| "jpow (Fin x) PInf = (if 1 < \<bar>x\<bar> then PInf else if \<bar>x\<bar> = 1 then NaN else Fin 0)"
| "jpow (Fin x) NInf = (if 1 < \<bar>x\<bar> then Fin 0 else if \<bar>x\<bar> = 1 then NaN else PInf)"
| "jpow _ PInf = PInf"
| "jpow _ NInf = Fin 0"

text \<open>
  \<open>Math.round\<close>: the nearest integer, a tie going up; the special values stay.  The
  nearest integer of a double is a double, so nothing is rounded a second time.
\<close>

fun jround :: "jsnum \<Rightarrow> jsnum" where
  "jround (Fin x) = Fin (of_int \<lfloor>x + 1 / 2\<rfloor>)"
| "jround v = v"

text \<open>The comparison \<open><\<close> of two numbers: false when either is NaN.\<close>

fun jless :: "jsnum \<Rightarrow> jsnum \<Rightarrow> bool" where
  "jless NaN _ = False"
| "jless _ NaN = False"
| "jless (Fin x) (Fin y) = (x < y)"
| "jless NInf NInf = False"
| "jless NInf _ = True"
| "jless _ NInf = False"
| "jless PInf _ = False"
| "jless _ PInf = True"

section \<open>Amortization (MemoizedBankCard, \<open>calculatedValues\<close>)\<close>

record bank_terms =
  InterestRate :: jsnum
  MaximumLoan :: jsnum
  MinimumDownPayment :: jsnum
  LoanTerm :: jsnum

record calculated =
  monthlyPayment :: jsnum
  totalInterest :: jsnum
  downPaymentPercentage :: jsnum

definition monthly_rate :: "'a bank_terms_scheme \<Rightarrow> jsnum" where
  "monthly_rate bank = jdiv (jdiv (InterestRate bank) (Fin 100)) (Fin 12)"

definition growth :: "'a bank_terms_scheme \<Rightarrow> jsnum" where
  "growth bank = jpow (jadd (Fin 1) (monthly_rate bank)) (jmul (LoanTerm bank) (Fin 12))"

definition raw_monthlyPayment :: "'a bank_terms_scheme \<Rightarrow> jsnum" where
  "raw_monthlyPayment bank =
     jdiv (jmul (jmul (jsub (MaximumLoan bank) (MinimumDownPayment bank)) (monthly_rate bank))
                (growth bank))
          (jsub (growth bank) (Fin 1))"

definition raw_totalInterest :: "'a bank_terms_scheme \<Rightarrow> jsnum" where
  "raw_totalInterest bank =
     jsub (jmul (jmul (raw_monthlyPayment bank) (LoanTerm bank)) (Fin 12))
          (jsub (MaximumLoan bank) (MinimumDownPayment bank))"

definition raw_downPaymentPercentage :: "'a bank_terms_scheme \<Rightarrow> jsnum" where
  "raw_downPaymentPercentage bank =
     jmul (jdiv (MinimumDownPayment bank) (MaximumLoan bank)) (Fin 100)"

definition calculatedValues :: "'a bank_terms_scheme \<Rightarrow> calculated" where
  "calculatedValues bank =
     \<lparr> monthlyPayment = jround (raw_monthlyPayment bank),
       totalInterest = jround (raw_totalInterest bank),
       downPaymentPercentage = jround (raw_downPaymentPercentage bank) \<rparr>"

text \<open>
  The formulas as the specification words them, over the reals: \<open>prin\<close> the principal,
  \<open>r\<close> the monthly rate, \<open>n\<close> the number of monthly instalments.
\<close>

definition spec_monthlyPayment :: "real \<Rightarrow> real \<Rightarrow> nat \<Rightarrow> real" where
  "spec_monthlyPayment prin annualRatePercent termYears =
     (let r = annualRatePercent / 100 / 12; n = termYears * 12
      in prin * r * (1 + r) ^ n / ((1 + r) ^ n - 1))"

definition spec_totalInterest :: "real \<Rightarrow> real \<Rightarrow> nat \<Rightarrow> real" where
  "spec_totalInterest prin annualRatePercent termYears =
     spec_monthlyPayment prin annualRatePercent termYears * real (termYears * 12) - prin"

definition spec_downPaymentPercentage :: "real \<Rightarrow> real \<Rightarrow> real" where
  "spec_downPaymentPercentage minimumDownPayment maximumLoan =
     minimumDownPayment / maximumLoan * 100"

definition nearest_whole :: "real \<Rightarrow> int" where
  "nearest_whole x = \<lfloor>x + 1 / 2\<rfloor>"

text \<open>
  Modelled from the spec: the same three formulas, in the specification's words, with
  every operation that of the doubles and taken from left to right, the way a JavaScript
  expression is evaluated.
\<close>

definition ieee_monthlyPayment :: "jsnum \<Rightarrow> jsnum \<Rightarrow> jsnum \<Rightarrow> jsnum" where
  "ieee_monthlyPayment prin annualRatePercent termYears =
     (let r = jdiv (jdiv annualRatePercent (Fin 100)) (Fin 12);
          n = jmul termYears (Fin 12);
          g = jpow (jadd (Fin 1) r) n
      in jdiv (jmul (jmul prin r) g) (jsub g (Fin 1)))"

definition ieee_totalInterest :: "jsnum \<Rightarrow> jsnum \<Rightarrow> jsnum \<Rightarrow> jsnum" where
  "ieee_totalInterest prin annualRatePercent termYears =
     jsub (jmul (jmul (ieee_monthlyPayment prin annualRatePercent termYears) termYears) (Fin 12))
          prin"

definition ieee_downPaymentPercentage :: "jsnum \<Rightarrow> jsnum \<Rightarrow> jsnum" where
  "ieee_downPaymentPercentage minimumDownPayment maximumLoan =
     jmul (jdiv minimumDownPayment maximumLoan) (Fin 100)"

section \<open>Bank records\<close>

text \<open>
  A bank offer as the import and export functions handle it: the name and the four
  numbers.  A bank held by the store also has the identifier the backing API gave it.
\<close>

record bank_offer = bank_terms +
  BankName :: string

record stored_bank = bank_offer +
  bank_id :: string

section \<open>State store (\<open>banksReducer\<close>)\<close>

text \<open>
  The store's state is \<open>{ items, loading, error }\<close>; \<open>error\<close> is \<open>null\<close> or the message
  of the last failure.  The reducer has one case for each of the three fetch actions and
  returns the state as it is for every other action.
\<close>

record banks_state =
  items :: "stored_bank list"
  loading :: bool
  error :: "string option"

datatype action =
    FetchBanksPending
  | FetchBanksFulfilled "stored_bank list"
  | FetchBanksRejected string
  | OtherAction string

definition initialState :: banks_state where
  "initialState = \<lparr> items = [], loading = False, error = None \<rparr>"

fun banksReducer :: "'a banks_state_scheme \<Rightarrow> action \<Rightarrow> 'a banks_state_scheme" where
  "banksReducer state FetchBanksPending = state\<lparr> loading := True, error := None \<rparr>"
| "banksReducer state (FetchBanksFulfilled payload) = state\<lparr> items := payload, loading := False \<rparr>"
| "banksReducer state (FetchBanksRejected payload) =
     state\<lparr> error := Some payload, loading := False \<rparr>"
| "banksReducer state (OtherAction _) = state"

text \<open>
  What can happen to the store: an action goes through the reducer, or a bank is added
  or deleted optimistically.
\<close>

datatype store_event =
    Dispatch action
  | OptimisticAdd stored_bank
  | OptimisticDelete string

text \<open>
  Modelled from the spec: the optimistic add and delete, which the reducer shown in the
  sources does not handle.  The specification has them as synchronous local mutations,
  independent of the loading flag: the collection is appended to on add and filtered on
  delete.
\<close>

fun store_step :: "'a banks_state_scheme \<Rightarrow> store_event \<Rightarrow> 'a banks_state_scheme" where
  "store_step state (Dispatch a) = banksReducer state a"
| "store_step state (OptimisticAdd bank) = state\<lparr> items := items state @ [bank] \<rparr>"
| "store_step state (OptimisticDelete i) =
     state\<lparr> items := filter (\<lambda>b. bank_id b \<noteq> i) (items state) \<rparr>"

definition store_run :: "'a banks_state_scheme \<Rightarrow> store_event list \<Rightarrow> 'a banks_state_scheme" where
  "store_run state events = foldl store_step state events"

section \<open>Validation and the add operation\<close>

text \<open>
  The new-bank form validates a candidate record and adds it to the collection.  Its
  component is not among the sources (only its tests are); the definitions of this
  section follow the specification.  A candidate may be partially filled: a numeric
  field is \<open>None\<close> while empty.
\<close>

datatype field = NameField | InterestRateField | MaximumLoanField
  | MinimumDownPaymentField | LoanTermField

datatype rule = Required | Format | Range | Duplicate

record candidate =
  name :: string
  interestRate :: "real option"
  maximumLoan :: "real option"
  minimumDownPayment :: "real option"
  loanTermYears :: "int option"

definition blank :: "string \<Rightarrow> bool" where
  "blank s = (\<forall>c \<in> set s. c = CHR '' '')"

definition upper_case :: "char \<Rightarrow> bool" where
  "upper_case c = (of_char CHR ''A'' \<le> (of_char c :: nat) \<and> (of_char c :: nat) \<le> of_char CHR ''Z'')"

definition check_name :: "string \<Rightarrow> (field \<times> rule) list" where
  "check_name s =
     (if blank s then [(NameField, Required)]
      else if \<not> upper_case (hd s) then [(NameField, Format)]
      else [])"

definition check_number :: "field \<Rightarrow> ('n \<Rightarrow> bool) \<Rightarrow> 'n option \<Rightarrow> (field \<times> rule) list" where
  "check_number f in_range v =
     (case v of
        None \<Rightarrow> [(f, Required)]
      | Some x \<Rightarrow> (if in_range x then [] else [(f, Range)]))"

definition check_duplicate :: "string \<Rightarrow> 'a bank_offer_scheme list \<Rightarrow> (field \<times> rule) list" where
  "check_duplicate s existing =
     (if s \<in> set (map BankName existing) then [(NameField, Duplicate)] else [])"

text \<open>
  Modelled from the spec: the validation engine of the form, absent from the sources.
  Each field is checked on its own and all applicable errors are returned together; a
  field that is empty fails \<open>Required\<close> and nothing else.  The duplicate check compares
  the name, exactly and with case, to the names of the existing records.
\<close>

definition validate :: "candidate \<Rightarrow> 'a bank_offer_scheme list \<Rightarrow> (field \<times> rule) list" where
  "validate c existing =
     check_name (name c)
     @ check_number InterestRateField (\<lambda>x. 0 \<le> x \<and> x \<le> 100) (interestRate c)
     @ check_number MaximumLoanField (\<lambda>x. 0 \<le> x) (maximumLoan c)
     @ check_number MinimumDownPaymentField (\<lambda>x. 0 \<le> x) (minimumDownPayment c)
     @ check_number LoanTermField (\<lambda>n. 1 \<le> n) (loanTermYears c)
     @ check_duplicate (name c) existing"

definition number_of :: "real option \<Rightarrow> jsnum" where
  "number_of v = (case v of None \<Rightarrow> NaN | Some x \<Rightarrow> Fin x)"

definition offer_of :: "candidate \<Rightarrow> bank_offer" where
  "offer_of c =
     \<lparr> InterestRate = number_of (interestRate c),
       MaximumLoan = number_of (maximumLoan c),
       MinimumDownPayment = number_of (minimumDownPayment c),
       LoanTerm = number_of (map_option of_int (loanTermYears c)),
       BankName = name c \<rparr>"

text \<open>
  Modelled from the spec: the add operation of the form, absent from the sources.  It
  goes through only when validation finds no error, and then appends the record; it
  returns the errors and the collection after it.
\<close>

definition add_bank :: "candidate \<Rightarrow> bank_offer list \<Rightarrow> (field \<times> rule) list \<times> bank_offer list" where
  "add_bank c existing =
     (let errors = validate c existing
      in if errors = [] then ([], existing @ [offer_of c]) else (errors, existing))"

section \<open>Strings and their conversion to numbers\<close>

text \<open>
  A string is a list of code units; the model has the code units below 256.  Of the
  white space and line terminators that \<open>trim\<close> removes, these are TAB, LF, VT, FF, CR,
  SP and NBSP.
\<close>

definition is_space :: "char \<Rightarrow> bool" where
  "is_space c = ((of_char c :: nat) \<in> {9, 10, 11, 12, 13, 32, 160})"

definition trimStart :: "string \<Rightarrow> string" where
  "trimStart s = dropWhile is_space s"

definition trimEnd :: "string \<Rightarrow> string" where
  "trimEnd s = rev (dropWhile is_space (rev s))"

definition trim :: "string \<Rightarrow> string" where
  "trim s = trimEnd (trimStart s)"

text \<open>\<open>s.split(sep)\<close> for a separator of one code unit: the empty string gives one piece.\<close>

fun split_on :: "char \<Rightarrow> string \<Rightarrow> string list" where
  "split_on sep [] = [[]]"
| "split_on sep (c # cs) =
     (if c = sep then [] # split_on sep cs
      else (case split_on sep cs of
              [] \<Rightarrow> [[c]]
            | piece # pieces \<Rightarrow> (c # piece) # pieces))"

fun join :: "string \<Rightarrow> string list \<Rightarrow> string" where
  "join sep [] = []"
| "join sep [piece] = piece"
| "join sep (piece # pieces) = piece @ sep @ join sep pieces"

definition is_digit :: "char \<Rightarrow> bool" where
  "is_digit c = (48 \<le> (of_char c :: nat) \<and> (of_char c :: nat) \<le> 57)"

text \<open>
  The value of a digit in a radix up to 36, \<open>None\<close> for any other code unit:
  \<open>0\<close> to \<open>9\<close>, then the letters in either case.
\<close>

definition radix_digit :: "nat \<Rightarrow> char \<Rightarrow> nat option" where
  "radix_digit radix c =
     (let u = (of_char c :: nat);
          v = (if 48 \<le> u \<and> u \<le> 57 then Some (u - 48)
               else if 97 \<le> u \<and> u \<le> 122 then Some (u - 87)
               else if 65 \<le> u \<and> u \<le> 90 then Some (u - 55)
               else None)
      in case v of None \<Rightarrow> None | Some d \<Rightarrow> (if d < radix then Some d else None))"

definition digits_value :: "nat \<Rightarrow> string \<Rightarrow> nat" where
  "digits_value radix ds = foldl (\<lambda>a c. radix * a + (case radix_digit radix c of None \<Rightarrow> 0 | Some d \<Rightarrow> d)) 0 ds"

text \<open>
  The exponent part of a decimal literal, \<open>e\<close> or \<open>E\<close>, an optional sign and at least
  one digit: its value and the rest of the string.
\<close>

definition sign_prefix :: "string \<Rightarrow> bool \<times> string" where
  "sign_prefix s =
     (case s of
        [] \<Rightarrow> (False, [])
      | c # t \<Rightarrow> (if c = CHR ''-'' then (True, t) else if c = CHR ''+'' then (False, t)
                 else (False, s)))"

definition exponent_part :: "string \<Rightarrow> (int \<times> string) option" where
  "exponent_part s =
     (case s of
        [] \<Rightarrow> None
      | c # t \<Rightarrow>
          (if c = CHR ''e'' \<or> c = CHR ''E'' then
             (let (negative, u) = sign_prefix t; ds = takeWhile is_digit u
              in if ds = [] then None
                 else Some ((if negative then - 1 else 1) * int (digits_value 10 ds),
                            dropWhile is_digit u))
           else None))"

text \<open>
  The longest prefix that is a \<open>StrUnsignedDecimalLiteral\<close>: \<open>Infinity\<close>, or digits with
  an optional fraction, or a fraction alone, then an optional exponent.  The value is
  that of the literal rounded to a double; the rest of the string is returned with it.
\<close>

definition unsigned_decimal :: "string \<Rightarrow> (jsnum \<times> string) option" where
  "unsigned_decimal s =
     (if take 8 s = ''Infinity'' then Some (PInf, drop 8 s)
      else
        let ip = takeWhile is_digit s;
            r1 = dropWhile is_digit s;
            (fp, r2) =
              (case r1 of
                 [] \<Rightarrow> ([], [])
               | c # t \<Rightarrow>
                   (if c = CHR ''.'' \<and> (ip \<noteq> [] \<or> takeWhile is_digit t \<noteq> [])
                    then (takeWhile is_digit t, dropWhile is_digit t)
                    else ([], r1)))
        in if ip = [] \<and> fp = [] then None
           else
             let m = real (digits_value 10 ip) + real (digits_value 10 fp) / 10 ^ length fp
             in (case exponent_part r2 of
                   None \<Rightarrow> Some (rnd m, r2)
                 | Some (e, r3) \<Rightarrow> Some (rnd (m * power_int 10 e), r3)))"

definition str_decimal :: "string \<Rightarrow> (jsnum \<times> string) option" where
  "str_decimal s =
     (let (negative, t) = sign_prefix s
      in case unsigned_decimal t of
           None \<Rightarrow> None
         | Some (v, r) \<Rightarrow> Some (if negative then jneg v else v, r))"

text \<open>\<open>parseFloat\<close> of a string: leading white space is skipped, what follows the literal
  is ignored, and no literal at all is NaN.\<close>

definition parseFloat_str :: "string \<Rightarrow> jsnum" where
  "parseFloat_str s = (case str_decimal (trimStart s) of None \<Rightarrow> NaN | Some (v, _) \<Rightarrow> v)"

text \<open>\<open>parseInt\<close> of a string with no radix given: radix 16 after \<open>0x\<close> or \<open>0X\<close>,
  radix 10 otherwise; the longest prefix of digits counts, and their value is rounded
  to a double.\<close>

definition parseInt_str :: "string \<Rightarrow> jsnum" where
  "parseInt_str s =
     (let (negative, u) = sign_prefix (trimStart s);
          hex = (take 2 u = ''0x'' \<or> take 2 u = ''0X'');
          radix = (if hex then 16 else 10);
          ds = takeWhile (\<lambda>c. radix_digit radix c \<noteq> None) (if hex then drop 2 u else u)
      in if ds = [] then NaN
         else rnd ((if negative then - 1 else 1) * real (digits_value radix ds)))"

text \<open>
  The conversion of a whole string to a number (\<open>StringToNumber\<close>), which \<open>isNaN\<close> applies
  to a string: white space around the literal is allowed, the empty string is 0, a
  literal in radix 16, 8 or 2 has no sign, and anything left over makes the result NaN.
\<close>

definition radix_prefix :: "string \<Rightarrow> nat option" where
  "radix_prefix s =
     (if take 2 s = ''0x'' \<or> take 2 s = ''0X'' then Some 16
      else if take 2 s = ''0o'' \<or> take 2 s = ''0O'' then Some 8
      else if take 2 s = ''0b'' \<or> take 2 s = ''0B'' then Some 2
      else None)"

definition str_to_number :: "string \<Rightarrow> jsnum" where
  "str_to_number s =
     (let t = trim s
      in if t = [] then Fin 0
         else case radix_prefix t of
           Some radix \<Rightarrow>
             (let ds = drop 2 t
              in if ds \<noteq> [] \<and> (\<forall>c \<in> set ds. radix_digit radix c \<noteq> None)
                 then rnd (real (digits_value radix ds)) else NaN)
         | None \<Rightarrow>
             (case str_decimal t of
                Some (v, []) \<Rightarrow> v
              | _ \<Rightarrow> NaN))"

section \<open>The string of a number\<close>

text \<open>
  The decimal exponent of a positive real, the \<open>e\<close> with \<open>10^e \<le> y < 10^(e+1)\<close>, is found
  by scaling by 10 into the range from 1 up to 10; 400 steps cover every double.
\<close>

fun exponent_down :: "nat \<Rightarrow> real \<Rightarrow> int" where
  "exponent_down 0 y = 0"
| "exponent_down (Suc fuel) y = (if y < 10 then 0 else 1 + exponent_down fuel (y / 10))"

fun exponent_up :: "nat \<Rightarrow> real \<Rightarrow> int" where
  "exponent_up 0 y = 0"
| "exponent_up (Suc fuel) y = (if 1 \<le> y then 0 else exponent_up fuel (y * 10) - 1)"

definition decimal_exponent :: "real \<Rightarrow> int" where
  "decimal_exponent y = (if 1 \<le> y then exponent_down 400 y else exponent_up 400 y)"

definition mantissa :: "real \<Rightarrow> real" where
  "mantissa y = y / power_int 10 (decimal_exponent y)"

definition leading_digit :: "real \<Rightarrow> int" where
  "leading_digit y = \<lfloor>mantissa y\<rfloor>"

text \<open>
  Number::toString writes the digits of the shortest decimal that reads back as the
  number: of all \<open>s \<times> 10^(n-k)\<close> with \<open>k\<close> digits \<open>s\<close> that round to the number, one with the
  least \<open>k\<close>, the closest to the number when there are several, and the even \<open>s\<close> on a tie.
  With \<open>k\<close> digits the two candidates are the multiples of the unit of the last digit
  just below and just above the number.  Every double has such a decimal with at most
  17 digits; for a real that is no double the search fails and the real itself is kept.
\<close>

definition shortest_with :: "real \<Rightarrow> nat \<Rightarrow> real option" where
  "shortest_with x k =
     (let u = power_int 10 (decimal_exponent x + 1 - int k);
          s = \<lfloor>x / u\<rfloor>;
          below = of_int s * u;
          above = of_int (s + 1) * u
      in if rnd below = Fin x \<and> rnd above = Fin x
           then Some (if x - below < above - x then below
                      else if above - x < x - below then above
                      else if even s then below else above)
         else if rnd below = Fin x then Some below
         else if rnd above = Fin x then Some above
         else None)"

fun shortest_from :: "nat \<Rightarrow> nat \<Rightarrow> real \<Rightarrow> real" where
  "shortest_from 0 k x = x"
| "shortest_from (Suc fuel) k x =
     (case shortest_with x k of
        Some v \<Rightarrow> v
      | None \<Rightarrow> shortest_from fuel (Suc k) x)"

definition shortest_decimal :: "real \<Rightarrow> real" where
  "shortest_decimal x = shortest_from 17 1 x"

text \<open>
  The digits are written in plain decimal notation when the decimal is from \<open>1e-6\<close> up
  to, but not including, \<open>1e21\<close>, and as \<open>d.ddd\<close> with an exponent otherwise.  The digits
  after the point are written until none is left (a shortest decimal has at most 17
  digits, after at most 6 zeros).
\<close>

definition digit_char :: "nat \<Rightarrow> char" where
  "digit_char d = ''0123456789'' ! (d mod 10)"

fun nat_digits :: "nat \<Rightarrow> string" where
  "nat_digits n =
     (if n < 10 then [digit_char n] else nat_digits (n div 10) @ [digit_char (n mod 10)])"

declare nat_digits.simps [simp del]

fun frac_digits :: "nat \<Rightarrow> real \<Rightarrow> string" where
  "frac_digits 0 x = []"
| "frac_digits (Suc fuel) x =
     (if x = 0 then []
      else digit_char (nat \<lfloor>10 * x\<rfloor>) # frac_digits fuel (10 * x - of_int \<lfloor>10 * x\<rfloor>))"

definition decimal_digits :: "real \<Rightarrow> string" where
  "decimal_digits y =
     nat_digits (nat \<lfloor>y\<rfloor>)
     @ (if y = of_int \<lfloor>y\<rfloor> then [] else ''.'' @ frac_digits 30 (y - of_int \<lfloor>y\<rfloor>))"

definition positive_to_string :: "real \<Rightarrow> string" where
  "positive_to_string y =
     (if 1 / 10 ^ 6 \<le> y \<and> y < 10 ^ 21 then decimal_digits y
      else
        let e = decimal_exponent y
        in decimal_digits (mantissa y) @ ''e''
           @ (if 0 \<le> e then ''+'' else ''-'') @ nat_digits (nat \<bar>e\<bar>))"

fun number_to_string :: "jsnum \<Rightarrow> string" where
  "number_to_string NaN = ''NaN''"
| "number_to_string PInf = ''Infinity''"
| "number_to_string NInf = ''-Infinity''"
| "number_to_string (Fin x) =
     (if x = 0 then ''0''
      else if x < 0 then ''-'' @ positive_to_string (shortest_decimal (- x))
      else positive_to_string (shortest_decimal x))"

section \<open>JavaScript values\<close>

text \<open>
  What \<open>JSON.parse\<close> returns, and \<open>undefined\<close> for the property an object does not
  have.  An object is the list of its properties, each key once.
\<close>

datatype jsval =
    JUndefined
  | JNull
  | JBool bool
  | JNum jsnum
  | JStr string
  | JArr "jsval list"
  | JObj "(string \<times> jsval) list"

text \<open>
  Reading a property.  On \<open>null\<close> and \<open>undefined\<close> it throws a TypeError (the result is
  \<open>None\<close>); a primitive or an array has none of the five property names of a bank, so the
  result is \<open>undefined\<close>.
\<close>

fun get_property :: "jsval \<Rightarrow> string \<Rightarrow> jsval option" where
  "get_property JUndefined key = None"
| "get_property JNull key = None"
| "get_property (JObj properties) key =
     Some (case map_of properties key of None \<Rightarrow> JUndefined | Some v \<Rightarrow> v)"
| "get_property _ key = Some JUndefined"

text \<open>\<open>!v\<close> holds for the falsy values: \<open>undefined\<close>, \<open>null\<close>, \<open>false\<close>, 0, NaN and the empty
  string.\<close>

fun falsy :: "jsval \<Rightarrow> bool" where
  "falsy JUndefined = True"
| "falsy JNull = True"
| "falsy (JBool b) = (\<not> b)"
| "falsy (JNum n) = (n = Fin 0 \<or> n = NaN)"
| "falsy (JStr s) = (s = [])"
| "falsy (JArr _) = False"
| "falsy (JObj _) = False"

fun is_string :: "jsval \<Rightarrow> bool" where
  "is_string (JStr _) = True"
| "is_string _ = False"

text \<open>
  The conversion to a number that \<open>isNaN\<close> applies to its argument.  An array is first
  turned into a string, its elements joined by commas with \<open>null\<close> and \<open>undefined\<close> as
  empty strings: no element gives the empty string, hence 0; one element gives that
  element's string; two or more give a string with a comma, which is no numeric literal.
  The string of a number reads back as that number.  Any other object has the string
  \<open>[object Object]\<close>.
\<close>

fun to_number :: "jsval \<Rightarrow> jsnum" where
  "to_number JUndefined = NaN"
| "to_number JNull = Fin 0"
| "to_number (JBool b) = Fin (if b then 1 else 0)"
| "to_number (JNum n) = n"
| "to_number (JStr s) = str_to_number s"
| "to_number (JObj _) = NaN"
| "to_number (JArr []) = Fin 0"
| "to_number (JArr [JUndefined]) = Fin 0"
| "to_number (JArr [JNull]) = Fin 0"
| "to_number (JArr [JBool b]) = NaN"
| "to_number (JArr [v]) = to_number v"
| "to_number (JArr (v # w # vs)) = NaN"

definition isNaN :: "jsval \<Rightarrow> bool" where
  "isNaN v = (to_number v = NaN)"

text \<open>
  \<open>parseFloat\<close> and \<open>parseInt\<close> turn their argument into a string and parse a prefix of
  it.  The string of a number reads back as the same number, so \<open>parseFloat\<close> returns a
  number as it is.  For \<open>parseInt\<close> the notation matters.  A number written in plain
  notation (its shortest decimal is from \<open>1e-6\<close> up to, but not including, \<open>1e21\<close>) is
  read up to the point: that is the integer part of the number itself, since no whole
  number lies between a double and its shortest decimal.  A number written as \<open>d.ddd\<close>
  with an exponent is read up to the point as well, which leaves the leading digit of
  its shortest decimal.  The strings of \<open>undefined\<close>, \<open>null\<close>, the booleans and a plain
  object start with no digit.  The string of an array starts with the string of its
  first element, and the comma that follows ends any literal.
\<close>

fun parseInt_num :: "jsnum \<Rightarrow> jsnum" where
  "parseInt_num (Fin x) =
     (if x = 0 then Fin 0
      else
        let v = shortest_decimal \<bar>x\<bar>
        in if 1 / 10 ^ 6 \<le> v \<and> v < 10 ^ 21 then Fin (sgn x * of_int \<lfloor>\<bar>x\<bar>\<rfloor>)
           else Fin (sgn x * of_int (leading_digit v)))"
| "parseInt_num _ = NaN"

declare parseInt_num.simps [simp del]

fun parseFloat :: "jsval \<Rightarrow> jsnum" where
  "parseFloat (JNum n) = n"
| "parseFloat (JStr s) = parseFloat_str s"
| "parseFloat (JArr (JUndefined # _)) = NaN"
| "parseFloat (JArr (JNull # _)) = NaN"
| "parseFloat (JArr (v # _)) = parseFloat v"
| "parseFloat _ = NaN"

fun parseInt :: "jsval \<Rightarrow> jsnum" where
  "parseInt (JNum n) = parseInt_num n"
| "parseInt (JStr s) = parseInt_str s"
| "parseInt (JArr (JUndefined # _)) = NaN"
| "parseInt (JArr (JNull # _)) = NaN"
| "parseInt (JArr (v # _)) = parseInt v"
| "parseInt _ = NaN"

section \<open>JSON export and import (\<open>exportBanksToJSON\<close>, \<open>importBanksFromJSON\<close>)\<close>

text \<open>
  The text of a JSON file is taken as the value it denotes: \<open>JSON.stringify\<close> writes the
  value and \<open>JSON.parse\<close> reads it back.  Each bank is written as an object of its five
  properties; \<open>JSON.stringify\<close> writes a number that is not finite as \<open>null\<close>.
\<close>

definition json_number :: "jsnum \<Rightarrow> jsval" where
  "json_number n = (case n of Fin x \<Rightarrow> JNum (Fin x) | _ \<Rightarrow> JNull)"

definition bank_to_json :: "bank_offer \<Rightarrow> jsval" where
  "bank_to_json bank =
     JObj [(''BankName'', JStr (BankName bank)),
           (''InterestRate'', json_number (InterestRate bank)),
           (''MaximumLoan'', json_number (MaximumLoan bank)),
           (''MinimumDownPayment'', json_number (MinimumDownPayment bank)),
           (''LoanTerm'', json_number (LoanTerm bank))]"

definition exportBanksToJSON :: "bank_offer list \<Rightarrow> jsval" where
  "exportBanksToJSON banks = JArr (map bank_to_json banks)"

text \<open>
  The import rejects a file that is not of type \<open>application/json\<close>, then parses the
  text (\<open>None\<close> stands for a text that \<open>JSON.parse\<close> rejects), requires an array and
  validates the elements in order.  The first failure ends the import: the error of a
  field check carries the 1-based position of the element and the name of the field.
\<close>

datatype json_error =
    NotJSONFile
  | SyntaxError
  | NotAnArray
  | FieldError nat string
  | TypeError

definition field_invalid :: "jsval \<Rightarrow> bool" where
  "field_invalid v = (falsy v \<or> isNaN v)"

definition string_of :: "jsval \<Rightarrow> string" where
  "string_of v = (case v of JStr s \<Rightarrow> s | _ \<Rightarrow> [])"

definition validate_bank :: "nat \<Rightarrow> jsval \<Rightarrow> json_error + bank_offer" where
  "validate_bank index bank =
     (case (get_property bank ''BankName'', get_property bank ''InterestRate'',
            get_property bank ''MaximumLoan'', get_property bank ''MinimumDownPayment'',
            get_property bank ''LoanTerm'') of
        (Some name_v, Some rate_v, Some loan_v, Some down_v,
         Some term_v) \<Rightarrow>
          if falsy name_v \<or> \<not> is_string name_v
            then Inl (FieldError (index + 1) ''BankName'')
          else if field_invalid rate_v
            then Inl (FieldError (index + 1) ''InterestRate'')
          else if field_invalid loan_v
            then Inl (FieldError (index + 1) ''MaximumLoan'')
          else if field_invalid down_v
            then Inl (FieldError (index + 1) ''MinimumDownPayment'')
          else if field_invalid term_v
            then Inl (FieldError (index + 1) ''LoanTerm'')
          else Inr \<lparr> InterestRate = parseFloat rate_v,
                     MaximumLoan = parseFloat loan_v,
                     MinimumDownPayment = parseFloat down_v,
                     LoanTerm = parseInt term_v,
                     BankName = trim (string_of name_v) \<rparr>
      | _ \<Rightarrow> Inl TypeError)"

fun validate_banks :: "nat \<Rightarrow> jsval list \<Rightarrow> json_error + bank_offer list" where
  "validate_banks index [] = Inr []"
| "validate_banks index (bank # banks) =
     (case validate_bank index bank of
        Inl e \<Rightarrow> Inl e
      | Inr validated \<Rightarrow>
          (case validate_banks (index + 1) banks of
             Inl e \<Rightarrow> Inl e
           | Inr rest \<Rightarrow> Inr (validated # rest)))"

definition importBanksFromJSON :: "string \<Rightarrow> jsval option \<Rightarrow> json_error + bank_offer list" where
  "importBanksFromJSON file_type parsed =
     (if file_type \<noteq> ''application/json'' then Inl NotJSONFile
      else case parsed of
        None \<Rightarrow> Inl SyntaxError
      | Some (JArr banks) \<Rightarrow> validate_banks 0 banks
      | Some _ \<Rightarrow> Inl NotAnArray)"

text \<open>
  A valid bank offer, in the words of the specification: a name that is not empty, a rate
  from 0 to 100, a maximum loan of at least 0, a minimum down payment from 0 to the
  maximum loan, and a whole number of years, at least 1.
\<close>

definition valid_offer :: "bank_offer \<Rightarrow> bool" where
  "valid_offer bank =
     (BankName bank \<noteq> []
      \<and> (case InterestRate bank of Fin r \<Rightarrow> 0 \<le> r \<and> r \<le> 100 | _ \<Rightarrow> False)
      \<and> (case MaximumLoan bank of
            Fin m \<Rightarrow>
              (case MinimumDownPayment bank of
                 Fin d \<Rightarrow> 0 \<le> m \<and> 0 \<le> d \<and> d \<le> m
               | _ \<Rightarrow> False)
          | _ \<Rightarrow> False)
      \<and> (case LoanTerm bank of Fin t \<Rightarrow> t \<in> \<int> \<and> 1 \<le> t | _ \<Rightarrow> False))"

text \<open>
  What the JSON import leaves as it is: a name with no white space around it, a rate, a
  maximum loan and a minimum down payment other than 0, and a term below \<open>1e21\<close>.
\<close>

definition survives_json :: "bank_offer \<Rightarrow> bool" where
  "survives_json bank =
     (trim (BankName bank) = BankName bank
      \<and> InterestRate bank \<noteq> Fin 0 \<and> MaximumLoan bank \<noteq> Fin 0
      \<and> MinimumDownPayment bank \<noteq> Fin 0 \<and> jless (LoanTerm bank) (Fin (10 ^ 21)))"

section \<open>CSV export (\<open>exportBanksToCSV\<close>)\<close>

text \<open>A row is the name between quotes and the strings of the four numbers, joined by
  commas.\<close>

definition csv_headers :: "string list" where
  "csv_headers = [''Bank Name'', ''Interest Rate (%)'', ''Maximum Loan ($)'',
     ''Minimum Down Payment ($)'', ''Loan Term (years)'']"

definition quote :: char where
  "quote = CHR 0x22"

definition line_feed :: char where
  "line_feed = CHR 0x0A"

definition csv_row :: "bank_offer \<Rightarrow> string" where
  "csv_row bank =
     join '','' [[quote] @ BankName bank @ [quote],
                number_to_string (InterestRate bank),
                number_to_string (MaximumLoan bank),
                number_to_string (MinimumDownPayment bank),
                number_to_string (LoanTerm bank)]"

text \<open>
  The body of the \<open>try\<close> block throws \<open>No banks data to export\<close> for an empty collection
  and otherwise builds the content of the file: the header line, then one row for each
  bank.  The \<open>catch\<close> block of the function replaces whatever was thrown in the body by
  \<open>Failed to export banks data\<close>.  The model returns the content written to the file.
\<close>

datatype export_error = NoBanksData | ExportFailed

definition csv_content :: "bank_offer list \<Rightarrow> export_error + string" where
  "csv_content banks =
     (if length banks = 0 then Inl NoBanksData
      else Inr (join [line_feed] (join '','' csv_headers # map csv_row banks)))"

definition exportBanksToCSV :: "bank_offer list \<Rightarrow> export_error + string" where
  "exportBanksToCSV banks =
     (case csv_content banks of
        Inl thrown \<Rightarrow> Inl ExportFailed
      | Inr content \<Rightarrow> Inr content)"

text \<open>The header line of an exported file.\<close>

definition header_line :: string where
  "header_line = join '','' csv_headers"

section \<open>CSV import (\<open>importBanksFromCSV\<close>)\<close>

text \<open>\<open>v.replace(/^"|"$/g, '')\<close>: a quote at the start is removed, and a quote at the
  end of what is left.\<close>

definition strip_quotes :: "string \<Rightarrow> string" where
  "strip_quotes v =
     (let w = (case v of [] \<Rightarrow> [] | c # cs \<Rightarrow> (if c = quote then cs else v))
      in if w \<noteq> [] \<and> last w = quote then butlast w else w)"

definition row_values :: "string \<Rightarrow> string list" where
  "row_values line = map (\<lambda>v. strip_quotes (trim v)) (split_on CHR '','' line)"

datatype csv_error =
    NotCSVFile
  | TooFewLines
  | BadHeader
  | RowError nat string

text \<open>One pass of the loop over the data rows, for the line at index \<open>i\<close>.\<close>

definition parse_row :: "nat \<Rightarrow> string \<Rightarrow> csv_error + bank_offer" where
  "parse_row i line =
     (let values = row_values line
      in if length values \<noteq> length csv_headers
           then Inl (RowError (i + 1) ''Invalid number of columns'')
         else
           let bank = \<lparr> InterestRate = parseFloat_str (values ! 1),
                        MaximumLoan = parseFloat_str (values ! 2),
                        MinimumDownPayment = parseFloat_str (values ! 3),
                        LoanTerm = parseInt_str (values ! 4),
                        BankName = values ! 0 \<rparr>
           in if BankName bank = []
                then Inl (RowError (i + 1) ''Invalid or missing Bank Name'')
              else if InterestRate bank = NaN \<or> jless (InterestRate bank) (Fin 0)
                then Inl (RowError (i + 1) ''Invalid Interest Rate'')
              else if MaximumLoan bank = NaN \<or> jless (MaximumLoan bank) (Fin 0)
                then Inl (RowError (i + 1) ''Invalid Maximum Loan'')
              else if MinimumDownPayment bank = NaN \<or> jless (MinimumDownPayment bank) (Fin 0)
                then Inl (RowError (i + 1) ''Invalid Minimum Down Payment'')
              else if LoanTerm bank = NaN \<or> jless (LoanTerm bank) (Fin 1)
                then Inl (RowError (i + 1) ''Invalid Loan Term'')
              else Inr bank)"

fun parse_rows :: "nat \<Rightarrow> string list \<Rightarrow> csv_error + bank_offer list" where
  "parse_rows i [] = Inr []"
| "parse_rows i (line # lines) =
     (case parse_row i line of
        Inl e \<Rightarrow> Inl e
      | Inr bank \<Rightarrow>
          (case parse_rows (i + 1) lines of
             Inl e \<Rightarrow> Inl e
           | Inr banks \<Rightarrow> Inr (bank # banks)))"

definition csv_lines :: "string \<Rightarrow> string list" where
  "csv_lines content = filter (\<lambda>line. trim line \<noteq> []) (split_on line_feed content)"

definition importBanksFromCSV :: "string \<Rightarrow> string \<Rightarrow> csv_error + bank_offer list" where
  "importBanksFromCSV file_type content =
     (if file_type \<noteq> ''text/csv'' then Inl NotCSVFile
      else
        let lines = csv_lines content
        in if length lines < 2 then Inl TooFewLines
           else
             let headers = map trim (split_on CHR '','' (lines ! 0))
             in if length headers \<noteq> length csv_headers then Inl BadHeader
                else parse_rows 1 (tl lines))"

text \<open>
  Modelled from the spec: the faults of a data row, in the specification's words.  The
  row does not split into 5 values, or one of its numeric fields is not numeric or is
  out of range (rate and amounts below 0, term below 1).  A field is numeric when its
  whole text is a number: \<open>strict_number\<close> is the conversion of the whole text, the one
  the \<open>isNaN\<close> check of the JSON import applies, with an empty text being no number.
\<close>

definition strict_number :: "string \<Rightarrow> jsnum" where
  "strict_number v = (if trim v = [] then NaN else str_to_number v)"

definition numeric_fault :: "string list \<Rightarrow> bool" where
  "numeric_fault values =
     (strict_number (values ! 1) = NaN \<or> jless (strict_number (values ! 1)) (Fin 0)
      \<or> strict_number (values ! 2) = NaN \<or> jless (strict_number (values ! 2)) (Fin 0)
      \<or> strict_number (values ! 3) = NaN \<or> jless (strict_number (values ! 3)) (Fin 0)
      \<or> strict_number (values ! 4) = NaN \<or> jless (strict_number (values ! 4)) (Fin 1))"

definition stated_row_fault :: "string \<Rightarrow> bool" where
  "stated_row_fault line =
     (length (row_values line) \<noteq> 5 \<or> numeric_fault (row_values line))"

text \<open>
  The import has one more fault, a bank name that is empty once the value is trimmed and
  its quotes are removed.  \<open>first_fault\<close> is the position, counted from 0, of the first
  data row with a fault, \<open>visited\<close> the rows up to and including that one (all rows when
  there is none), and \<open>row_record\<close> the record of a row: its name and its four numbers.
\<close>

definition row_fault :: "string \<Rightarrow> bool" where
  "row_fault line = (stated_row_fault line \<or> row_values line ! 0 = [])"


fun first_fault :: "string list \<Rightarrow> nat option" where
  "first_fault [] = None"
| "first_fault (row # rows) =
     (if row_fault row then Some 0 else map_option Suc (first_fault rows))"




text \<open>A row that the loop of the import takes: it gives a record and no error.\<close>

definition row_accepted :: "string \<Rightarrow> bool" where
  "row_accepted line = (case parse_row 0 line of Inl e \<Rightarrow> False | Inr bank \<Rightarrow> True)"

section \<open>Properties of the rounding\<close>

text \<open>Powers of 2, the binade and the nearest integer.\<close>

lemma pow2_pos [simp]: "0 < pow2 k"
  by (simp add: pow2_def)

lemma pow2_nonneg [simp]: "0 \<le> pow2 k"
  by (simp add: pow2_def)

lemma pow2_neq0 [simp]: "pow2 k \<noteq> 0"
  by (simp add: pow2_def)

lemma pow2_add: "pow2 (a + b) = pow2 a * pow2 b"
  by (simp add: pow2_def power_int_add)

lemma pow2_diff: "pow2 (a - b) = pow2 a / pow2 b"
  by (simp add: pow2_def power_int_diff)

lemma pow2_0 [simp]: "pow2 0 = 1"
  by (simp add: pow2_def)

lemma pow2_1 [simp]: "pow2 1 = 2"
  by (simp add: pow2_def)

lemma pow2_nat: "pow2 (int n) = 2 ^ n"
  by (simp add: pow2_def)

lemma pow2_neg_nat: "pow2 (- int n) = 1 / 2 ^ n"
  by (simp only: pow2_def power_int_minus power_int_of_nat inverse_eq_divide)

lemma pow2_mono: "a \<le> b \<Longrightarrow> pow2 a \<le> pow2 b"
  unfolding pow2_def by (rule power_int_increasing) simp_all

lemma pow2_strict_mono: "a < b \<Longrightarrow> pow2 a < pow2 b"
  unfolding pow2_def by (rule power_int_strict_increasing) simp_all

lemma pow2_less_iff: "pow2 a < pow2 b \<longleftrightarrow> a < b"
  by (meson linorder_not_less pow2_mono pow2_strict_mono)

lemma pow2_le_iff: "pow2 a \<le> pow2 b \<longleftrightarrow> a \<le> b"
  by (meson linorder_not_less pow2_mono pow2_strict_mono)

lemma pow2_of_int: "a \<le> b \<Longrightarrow> pow2 b / pow2 a = of_int (2 ^ nat (b - a))"
proof -
  assume "a \<le> b"
  then have "pow2 (b - a) = 2 ^ nat (b - a)" using pow2_nat [of "nat (b - a)"] by simp
  then show ?thesis by (simp add: pow2_diff)
qed

lemma two_le_power_Suc: "(2::real) \<le> 2 ^ Suc n"
proof -
  have "(1::real) \<le> 2 ^ n" by simp
  then show ?thesis by simp
qed

lemma log2_down_eq:
  "2 ^ n \<le> y \<Longrightarrow> y < 2 ^ Suc n \<Longrightarrow> n \<le> fuel \<Longrightarrow> log2_down fuel y = int n"
proof (induction n arbitrary: fuel y)
  case 0
  then show ?case by (cases fuel) simp_all
next
  case (Suc n)
  then obtain f where f: "fuel = Suc f" by (cases fuel) simp_all
  have "2 \<le> y" using Suc.prems(1) two_le_power_Suc [of n] by linarith
  moreover have "log2_down f (y / 2) = int n"
    using Suc.prems f by (intro Suc.IH) (simp_all add: field_simps)
  ultimately show ?case using f by simp
qed

lemma log2_up_eq:
  "0 < y \<Longrightarrow> 1 \<le> 2 ^ n * y \<Longrightarrow> 2 ^ n * y < 2 \<Longrightarrow> n \<le> fuel \<Longrightarrow> log2_up fuel y = - int n"
proof (induction n arbitrary: fuel y)
  case 0
  then show ?case by (cases fuel) simp_all
next
  case (Suc n)
  then obtain f where f: "fuel = Suc f" by (cases fuel) simp_all
  have "2 * y \<le> 2 ^ Suc n * y"
    using two_le_power_Suc [of n] Suc.prems(1) by (intro mult_right_mono) simp_all
  then have "y < 1" using Suc.prems(3) by linarith
  moreover have "log2_up f (2 * y) = - int n"
    using Suc.prems f by (intro Suc.IH) (simp_all add: field_simps)
  ultimately show ?case using f by simp
qed

lemma log2_up_nonpos: "log2_up fuel y \<le> 0"
proof (induction fuel arbitrary: y)
  case 0
  show ?case by simp
next
  case (Suc fuel)
  have "log2_up fuel (2 * y) \<le> 0" by (rule Suc.IH)
  then show ?case by simp
qed

lemma log2_up_le: "2 ^ n * y < 1 \<Longrightarrow> n \<le> fuel \<Longrightarrow> log2_up fuel y \<le> - int n"
proof (induction n arbitrary: fuel y)
  case 0
  then show ?case by (simp add: log2_up_nonpos)
next
  case (Suc n)
  then obtain f where f: "fuel = Suc f" by (cases fuel) simp_all
  have "y < 1"
  proof (rule ccontr)
    assume "\<not> y < 1"
    then have "1 \<le> y" by simp
    moreover have "(1::real) \<le> 2 ^ Suc n" using two_le_power_Suc [of n] by linarith
    ultimately have "1 * 1 \<le> 2 ^ Suc n * y" by (intro mult_mono) simp_all
    with Suc.prems(1) show False by simp
  qed
  moreover have "log2_up f (2 * y) \<le> - int n"
    using Suc.prems f by (intro Suc.IH) (simp_all add: field_simps)
  ultimately show ?case using f by simp
qed

lemma floor_log2_eq:
  assumes "pow2 k \<le> y" and "y < pow2 (k + 1)" and "- 1100 \<le> k" and "k \<le> 1100"
  shows "floor_log2 y = k"
proof (cases "0 \<le> k")
  case True
  then obtain n where n: "k = int n" using nonneg_int_cases by blast
  have "k + 1 = int (Suc n)" using n by simp
  then have y: "2 ^ n \<le> y" "y < 2 ^ Suc n"
    using assms(1,2) n by (simp_all only: pow2_nat)
  have "(1::real) \<le> 2 ^ n" by simp
  then have "1 \<le> y" using y(1) by linarith
  moreover have "log2_down 1100 y = int n"
    using y assms(4) n by (intro log2_down_eq) simp_all
  ultimately show ?thesis by (simp add: floor_log2_def n)
next
  case False
  define n where "n = nat (- k - 1)"
  have k: "k = - int (Suc n)" using False by (simp add: n_def)
  have k1: "k + 1 = - int n" using k by simp
  have p: "pow2 k = 1 / 2 ^ Suc n" "pow2 (k + 1) = 1 / 2 ^ n"
    unfolding k1 unfolding k by (simp_all only: pow2_neg_nat)
  have pos: "0 < y" using assms(1) pow2_pos [of k] by linarith
  have y: "1 \<le> 2 ^ Suc n * y" "2 ^ Suc n * y < 2"
    using assms(1,2) unfolding p by (simp_all add: field_simps)
  have "(1::real) \<le> 2 ^ n" by simp
  then have "1 / 2 ^ n \<le> (1::real)" by (simp add: field_simps)
  then have "y < 1" using assms(2) unfolding p by linarith
  moreover have "log2_up 1100 y = - int (Suc n)"
    using pos y assms(3) k by (intro log2_up_eq) simp_all
  ultimately show ?thesis by (simp add: floor_log2_def k)
qed

lemma binade_exists:
  fixes y :: real
  assumes "0 < y"
  obtains k where "pow2 k \<le> y" and "y < pow2 (k + 1)"
proof -
  define k where "k = \<lfloor>log 2 y\<rfloor>"
  have a: "2 powr of_int k \<le> y \<and> y < 2 powr (of_int k + 1)"
    using assms floor_log_eq_powr_iff [of y 2 k] by (simp add: k_def)
  have "of_int k + 1 = (of_int (k + 1) :: real)" by simp
  then have b: "y < 2 powr of_int (k + 1)" using a by (simp only:)
  have "(2::real) powr of_int k = power_int 2 k" "(2::real) powr of_int (k + 1) = power_int 2 (k + 1)"
    by (rule powr_real_of_int'; simp)+
  with a b have "pow2 k \<le> y" and "y < pow2 (k + 1)"
    by (simp_all add: pow2_def)
  then show ?thesis by (rule that)
qed

lemma half_even_of_int [simp]: "half_even (of_int j) = j"
  by (simp add: half_even_def)

lemma half_even_close: "\<bar>of_int (half_even r) - r\<bar> \<le> 1 / 2"
  unfolding half_even_def Let_def by (simp; linarith)

lemma half_even_nonneg: "0 \<le> r \<Longrightarrow> 0 \<le> half_even r"
  unfolding half_even_def Let_def by (simp; linarith)

lemma half_even_nonpos: "r \<le> 0 \<Longrightarrow> half_even r \<le> 0"
  unfolding half_even_def Let_def by (simp; linarith)

lemma grid_small:
  assumes "\<bar>x\<bar> < pow2 (- 1022)"
  shows "grid x = - 1074"
proof -
  have p: "pow2 (- 1022) = 1 / 2 ^ 1022"
    using pow2_neg_nat [of 1022] by simp
  have "(1::real) \<le> 2 ^ 1022" by (rule one_le_power) simp
  then have "(1::real) / 2 ^ 1022 \<le> 1" by (simp only: divide_le_eq_1_pos zero_less_power zero_less_numeral) 
  then have lt: "\<bar>x\<bar> < 1" using assms unfolding p by linarith
  have "\<bar>x\<bar> < 1 / 2 ^ 1022" using assms unfolding p .
  then have "2 ^ 1022 * \<bar>x\<bar> < 1"
    by (simp only: pos_less_divide_eq zero_less_power zero_less_numeral mult.commute)
  then have "log2_up 1100 \<bar>x\<bar> \<le> - int 1022" by (rule log2_up_le) simp
  then show ?thesis using lt by (simp add: grid_def floor_log2_def)
qed

lemma grid_normal:
  assumes "pow2 k \<le> \<bar>x\<bar>" and "\<bar>x\<bar> < pow2 (k + 1)"
    and "- 1022 \<le> k" and "k \<le> 1023"
  shows "grid x = k - 52"
proof -
  have "floor_log2 \<bar>x\<bar> = k" using assms by (intro floor_log2_eq) simp_all
  then show ?thesis using assms(3) by (simp add: grid_def)
qed

lemma rnd_normal:
  assumes "pow2 k \<le> \<bar>x\<bar>" and "\<bar>x\<bar> < pow2 (k + 1)"
    and "- 1022 \<le> k" and "k \<le> 1023"
  shows "rnd x =
     (if pow2 1024 \<le> \<bar>of_int (half_even (x / pow2 (k - 52))) * pow2 (k - 52)\<bar>
      then signed_inf (0 < x)
      else Fin (of_int (half_even (x / pow2 (k - 52))) * pow2 (k - 52)))"
  unfolding rnd_def Let_def grid_normal [OF assms] by (rule refl)

lemma floor_le_half_even: "\<lfloor>r\<rfloor> \<le> half_even r"
  unfolding half_even_def Let_def by simp

lemma half_even_le_ceiling: "half_even r \<le> \<lceil>r\<rceil>"
proof (cases "r = of_int \<lfloor>r\<rfloor>")
  case True
  then have "half_even r = \<lfloor>r\<rfloor>" by (metis half_even_of_int)
  then show ?thesis by (simp add: floor_le_ceiling)
next
  case False
  then have "\<lceil>r\<rceil> = \<lfloor>r\<rfloor> + 1" by (simp add: ceiling_altdef)
  then show ?thesis unfolding half_even_def Let_def by simp
qed

lemma half_even_le:
  assumes "r \<le> of_int n"
  shows "half_even r \<le> n"
proof -
  have "\<lceil>r\<rceil> \<le> n" using assms by (simp add: ceiling_le_iff)
  then show ?thesis using half_even_le_ceiling [of r] by linarith
qed

lemma half_even_ge:
  assumes "of_int n \<le> r"
  shows "n \<le> half_even r"
proof -
  have "n \<le> \<lfloor>r\<rfloor>" using assms by (simp add: le_floor_iff)
  then show ?thesis using floor_le_half_even [of r] by linarith
qed

lemma half_even_abs_le:
  assumes "\<bar>r\<bar> \<le> of_int n"
  shows "\<bar>real_of_int (half_even r)\<bar> \<le> of_int n"
proof -
  have "r \<le> of_int n" and "of_int (- n) \<le> r" using assms by simp_all
  then have "half_even r \<le> n" and "- n \<le> half_even r"
    by (simp_all add: half_even_le half_even_ge)
  then have "\<bar>half_even r\<bar> \<le> n" by simp
  then show ?thesis by (metis of_int_abs of_int_le_iff)
qed

lemma pow2_not_le_0 [simp]: "\<not> pow2 k \<le> 0"
  using pow2_pos [of k] by linarith

lemma rnd_0 [simp]: "rnd 0 = Fin 0"
proof -
  have "grid 0 = - 1074" using grid_small [of 0] by simp
  moreover have "half_even 0 = 0" using half_even_of_int [of 0] by simp
  ultimately show ?thesis by (simp add: rnd_def)
qed

text \<open>A value on the grid of its binade is not changed.\<close>

lemma rnd_on_grid:
  assumes "x = of_int j * pow2 (grid x)" and "\<bar>x\<bar> < pow2 1024"
  shows "rnd x = Fin x"
proof -
  have "x / pow2 (grid x) = of_int j"
    using assms(1) by (metis nonzero_mult_div_cancel_right pow2_neq0)
  then have "of_int (half_even (x / pow2 (grid x))) * pow2 (grid x) = x"
    using assms(1) by simp
  then show ?thesis using assms(2) by (simp add: rnd_def Let_def)
qed

lemma pow2_int_multiple:
  assumes "g \<le> e"
  shows "of_int m * pow2 e = of_int (m * 2 ^ nat (e - g)) * pow2 g"
proof -
  have "pow2 e = pow2 (e - g) * pow2 g" using pow2_add [of "e - g" g] by simp
  moreover have "pow2 (e - g) = 2 ^ nat (e - g)"
    using assms pow2_nat [of "nat (e - g)"] by simp
  ultimately show ?thesis by simp
qed

lemma rnd_exact:
  assumes x: "x = of_int m * pow2 e" and m: "\<bar>m\<bar> < 2 ^ 53"
    and e: "- 1074 \<le> e" and fin: "\<bar>x\<bar> < pow2 1024"
  shows "rnd x = Fin x"
proof (cases "x = 0")
  case True
  then show ?thesis by simp
next
  case False
  then have "0 < \<bar>x\<bar>" by simp
  then obtain k where k: "pow2 k \<le> \<bar>x\<bar>" "\<bar>x\<bar> < pow2 (k + 1)"
    by (rule binade_exists)
  have "\<bar>x\<bar> = of_int \<bar>m\<bar> * pow2 e" by (simp add: x abs_mult)
  also have "\<dots> < of_int (2 ^ 53) * pow2 e"
    using m by (intro mult_strict_right_mono) simp_all
  also have "\<dots> = pow2 (53 + e)"
    using pow2_nat [of 53] by (simp add: pow2_add)
  finally have "pow2 k < pow2 (53 + e)" using k(1) by linarith
  then have ke: "k - 52 \<le> e" by (simp add: pow2_less_iff)
  have "pow2 k < pow2 1024" using k(1) fin by linarith
  then have k_hi: "k \<le> 1023" by (simp add: pow2_less_iff)
  have "grid x \<le> e"
  proof (cases "- 1022 \<le> k")
    case True
    then have "grid x = k - 52" using k k_hi by (intro grid_normal) simp_all
    then show ?thesis using ke by simp
  next
    case False
    then have "pow2 (k + 1) \<le> pow2 (- 1022)" by (intro pow2_mono) simp
    then have "\<bar>x\<bar> < pow2 (- 1022)" using k(2) by linarith
    then have "grid x = - 1074" by (rule grid_small)
    then show ?thesis using e by simp
  qed
  then have "x = of_int (m * 2 ^ nat (e - grid x)) * pow2 (grid x)"
    unfolding x [symmetric] using pow2_int_multiple [of "grid x" e m] x by simp
  then show ?thesis using fin by (rule rnd_on_grid)
qed

lemma pow2_1024_big: "(2::real) ^ 53 \<le> pow2 1024"
proof -
  have "pow2 53 \<le> pow2 1024" by (intro pow2_mono) simp
  then show ?thesis using pow2_nat [of 53] by simp
qed

lemma rnd_of_int:
  assumes "\<bar>m\<bar> < 2 ^ 53"
  shows "rnd (of_int m) = Fin (of_int m)"
proof -
  have "\<bar>real_of_int m\<bar> < 2 ^ 53" using assms by (metis of_int_abs of_int_less_iff of_int_numeral of_int_power)
  then have "\<bar>real_of_int m\<bar> < pow2 1024" using pow2_1024_big by linarith
  then show ?thesis using assms by (intro rnd_exact [where m = m and e = 0]) simp_all
qed

text \<open>In the normal range, below the last binade, the result is finite.\<close>

lemma rnd_finite:
  assumes k: "pow2 k \<le> \<bar>x\<bar>" "\<bar>x\<bar> < pow2 (k + 1)" and lo: "- 1022 \<le> k" and hi: "k \<le> 1022"
  shows "rnd x = Fin (of_int (half_even (x / pow2 (k - 52))) * pow2 (k - 52))"
proof -
  let ?g = "k - 52"
  have "\<bar>x / pow2 ?g\<bar> = \<bar>x\<bar> / pow2 ?g" by simp
  also have "\<dots> \<le> pow2 (k + 1) / pow2 ?g"
    using k(2) by (intro divide_right_mono) simp_all
  also have "\<dots> = of_int (2 ^ 53)"
    using pow2_of_int [of ?g "k + 1"] by simp
  finally have "\<bar>real_of_int (half_even (x / pow2 ?g))\<bar> \<le> of_int (2 ^ 53)"
    by (rule half_even_abs_le)
  then have "\<bar>real_of_int (half_even (x / pow2 ?g)) * pow2 ?g\<bar> \<le> of_int (2 ^ 53) * pow2 ?g"
    by (simp add: abs_mult)
  also have "\<dots> = pow2 (k + 1)"
  proof -
    have "k + 1 = 53 + ?g" by simp
    then have "pow2 (k + 1) = pow2 53 * pow2 ?g" by (simp only: pow2_add)
    then show ?thesis using pow2_nat [of 53] by simp
  qed
  also have "\<dots> < pow2 1024" using hi by (intro pow2_strict_mono) simp
  finally have "\<not> pow2 1024 \<le> \<bar>real_of_int (half_even (x / pow2 ?g)) * pow2 ?g\<bar>" by simp
  then show ?thesis using rnd_normal [OF k lo] hi by simp
qed

lemma rnd_error:
  assumes lo: "pow2 (- 1022) \<le> \<bar>x\<bar>" and hi: "\<bar>x\<bar> < pow2 1023"
  shows "\<exists>y. rnd x = Fin y \<and> \<bar>y - x\<bar> \<le> \<bar>x\<bar> * pow2 (- 53)"
proof -
  have "0 < \<bar>x\<bar>" using lo pow2_pos [of "- 1022"] by linarith
  then obtain k where k: "pow2 k \<le> \<bar>x\<bar>" "\<bar>x\<bar> < pow2 (k + 1)"
    by (rule binade_exists)
  have "pow2 (- 1022) < pow2 (k + 1)" using lo k(2) by linarith
  then have k_lo: "- 1022 \<le> k" by (simp add: pow2_less_iff)
  have "pow2 k < pow2 1023" using hi k(1) by linarith
  then have k_hi: "k \<le> 1022" by (simp add: pow2_less_iff)
  let ?g = "k - 52"
  let ?y = "of_int (half_even (x / pow2 ?g)) * pow2 ?g"
  have r: "rnd x = Fin ?y" using k k_lo k_hi by (rule rnd_finite)
  have "?y - x = (of_int (half_even (x / pow2 ?g)) - x / pow2 ?g) * pow2 ?g"
    by (simp add: left_diff_distrib)
  then have "\<bar>?y - x\<bar> = \<bar>of_int (half_even (x / pow2 ?g)) - x / pow2 ?g\<bar> * pow2 ?g"
    by (simp add: abs_mult)
  also have "\<dots> \<le> (1 / 2) * pow2 ?g"
    using half_even_close [of "x / pow2 ?g"] by (intro mult_right_mono) simp_all
  also have "\<dots> = pow2 k * pow2 (- 53)"
  proof -
    have "pow2 ?g = pow2 k * pow2 (- 53) * pow2 1" using pow2_add [of k "- 53 + 1"] pow2_add [of "- 53" 1] by simp
    then show ?thesis by simp
  qed
  also have "\<dots> \<le> \<bar>x\<bar> * pow2 (- 53)" using k(1) by (intro mult_right_mono) simp_all
  finally show ?thesis using r by blast
qed

lemma log2_down_lower: "1 \<le> y \<Longrightarrow> pow2 (log2_down fuel y) \<le> y"
proof (induction fuel arbitrary: y)
  case 0
  then show ?case by simp
next
  case (Suc fuel)
  show ?case
  proof (cases "y < 2")
    case True
    then show ?thesis using Suc.prems by simp
  next
    case False
    then have "1 \<le> y / 2" by simp
    then have "pow2 (log2_down fuel (y / 2)) \<le> y / 2" by (rule Suc.IH)
    then have "pow2 1 * pow2 (log2_down fuel (y / 2)) \<le> y" by simp
    then show ?thesis using False by (simp add: pow2_add)
  qed
qed

lemma log2_down_nonneg: "0 \<le> log2_down fuel y"
proof (induction fuel arbitrary: y)
  case 0
  show ?case by simp
next
  case (Suc fuel)
  have "0 \<le> log2_down fuel (y / 2)" by (rule Suc.IH)
  then show ?case by simp
qed

lemma log2_down_ge: "2 ^ n \<le> y \<Longrightarrow> n \<le> fuel \<Longrightarrow> int n \<le> log2_down fuel y"
proof (induction n arbitrary: fuel y)
  case 0
  then show ?case by (simp add: log2_down_nonneg)
next
  case (Suc n)
  then obtain f where f: "fuel = Suc f" by (cases fuel) simp_all
  have "2 \<le> y" using Suc.prems(1) two_le_power_Suc [of n] by linarith
  moreover have "int n \<le> log2_down f (y / 2)"
    using Suc.prems f by (intro Suc.IH) (simp_all add: field_simps)
  ultimately show ?case using f by simp
qed

lemma rnd_overflow:
  assumes "pow2 1024 \<le> x"
  shows "rnd x = PInf"
proof -
  have one: "(1::real) \<le> pow2 1024" using pow2_mono [of 0 1024] by simp
  then have x1: "1 \<le> x" and pos: "0 < x" using assms by linarith+
  define L where "L = log2_down 1100 x"
  have "2 ^ 1024 \<le> x" using assms pow2_nat [of 1024] by simp
  then have "int 1024 \<le> log2_down 1100 x" by (rule log2_down_ge) simp
  then have L: "1024 \<le> L" by (simp add: L_def)
  have lower: "pow2 L \<le> x" unfolding L_def using x1 by (rule log2_down_lower)
  have g: "grid x = L - 52" using x1 pos L by (simp add: grid_def floor_log2_def L_def)
  let ?g = "L - 52"
  have "of_int (2 ^ 52) = pow2 L / pow2 ?g" using pow2_of_int [of ?g L] by simp
  also have "\<dots> \<le> x / pow2 ?g" using lower by (intro divide_right_mono) simp_all
  finally have "2 ^ 52 \<le> half_even (x / pow2 ?g)" by (rule half_even_ge)
  then have "real_of_int (2 ^ 52) \<le> of_int (half_even (x / pow2 ?g))"
    by (simp only: of_int_le_iff)
  then have "of_int (2 ^ 52) * pow2 ?g \<le> of_int (half_even (x / pow2 ?g)) * pow2 ?g"
    by (intro mult_right_mono) simp_all
  moreover have "of_int (2 ^ 52) * pow2 ?g = pow2 L"
    using pow2_nat [of 52] pow2_add [of 52 ?g] by simp
  moreover have "pow2 1024 \<le> pow2 L" using L by (intro pow2_mono)
  ultimately have "pow2 1024 \<le> of_int (half_even (x / pow2 ?g)) * pow2 ?g" by linarith
  then have "pow2 1024 \<le> \<bar>of_int (half_even (x / pow2 ?g)) * pow2 ?g\<bar>" by linarith
  then show ?thesis using pos by (simp add: rnd_def Let_def g signed_inf_def)
qed

lemma rnd_eval:
  assumes "pow2 k \<le> \<bar>x\<bar>" and "\<bar>x\<bar> < pow2 (k + 1)" and "- 1022 \<le> k" and "k \<le> 1022"
    and "half_even (x / pow2 (k - 52)) = j"
  shows "rnd x = Fin (of_int j * pow2 (k - 52))"
  using rnd_finite [OF assms(1-4)] assms(5) by simp

text \<open>The same with decimal bounds: the relative error is below \<open>1e-15\<close>.\<close>

lemma rnd_near:
  assumes "1 / 10 ^ 30 \<le> \<bar>v\<bar>" and "\<bar>v\<bar> \<le> 10 ^ 30"
  shows "\<exists>y. rnd v = Fin y \<and> \<bar>y - v\<bar> \<le> \<bar>v\<bar> / 10 ^ 15"
proof -
  have "pow2 (- 1022) \<le> pow2 (- 100)" by (intro pow2_mono) simp
  also have "\<dots> \<le> 1 / 10 ^ 30" by (simp add: pow2_def)
  finally have lo: "pow2 (- 1022) \<le> \<bar>v\<bar>" using assms(1) by linarith
  have "(10::real) ^ 30 < pow2 100" by (simp add: pow2_def)
  also have "\<dots> \<le> pow2 1023" by (intro pow2_mono) simp
  finally have hi: "\<bar>v\<bar> < pow2 1023" using assms(2) by linarith
  obtain y where y: "rnd v = Fin y" "\<bar>y - v\<bar> \<le> \<bar>v\<bar> * pow2 (- 53)"
    using rnd_error [OF lo hi] by blast
  have "pow2 (- 53) \<le> 1 / 10 ^ 15" by (simp add: pow2_def)
  then have "\<bar>v\<bar> * pow2 (- 53) \<le> \<bar>v\<bar> * (1 / 10 ^ 15)"
    by (intro mult_left_mono) simp_all
  then have "\<bar>y - v\<bar> \<le> \<bar>v\<bar> / 10 ^ 15" using y(2) by simp
  with y(1) show ?thesis by blast
qed

lemma rnd_neq:
  assumes "1 / 10 ^ 30 \<le> \<bar>v\<bar>" and "\<bar>v\<bar> \<le> 10 ^ 30" and "\<bar>v\<bar> / 10 ^ 15 < \<bar>x - v\<bar>"
  shows "rnd v \<noteq> Fin x"
  using rnd_near [OF assms(1,2)] assms(3) by auto

lemma rnd_between:
  assumes "1 / 10 ^ 30 \<le> lo" and "lo \<le> v" and "v \<le> hi" and "hi \<le> 10 ^ 30"
  shows "\<exists>y. rnd v = Fin y \<and> lo - lo / 10 ^ 15 \<le> y \<and> y \<le> hi + hi / 10 ^ 15"
proof -
  have "(0::real) < 1 / 10 ^ 30" by simp
  then have pos: "0 < lo" using assms(1) by linarith
  then have v: "\<bar>v\<bar> = v" "0 < v" using assms(2) by simp_all
  obtain y where y: "rnd v = Fin y" "\<bar>y - v\<bar> \<le> v / 10 ^ 15"
    using rnd_near [of v] assms v by auto
  have "v - v / 10 ^ 15 \<le> y" and "y \<le> v + v / 10 ^ 15" using y(2) by linarith+
  moreover have "lo - lo / 10 ^ 15 \<le> v - v / 10 ^ 15" using assms(2) by (simp add: field_simps)
  moreover have "v + v / 10 ^ 15 \<le> hi + hi / 10 ^ 15" using assms(3) by (simp add: field_simps)
  ultimately have "lo - lo / 10 ^ 15 \<le> y \<and> y \<le> hi + hi / 10 ^ 15" by linarith
  then show ?thesis using y(1) by blast
qed

section \<open>Properties of the string of a number\<close>

lemma ten_le_power_Suc: "(10::real) \<le> 10 ^ Suc n"
proof -
  have "(1::real) \<le> 10 ^ n" by simp
  then show ?thesis by simp
qed

lemma exponent_down_eq:
  "10 ^ n \<le> y \<Longrightarrow> y < 10 ^ Suc n \<Longrightarrow> n \<le> fuel \<Longrightarrow> exponent_down fuel y = int n"
proof (induction n arbitrary: fuel y)
  case 0
  then show ?case by (cases fuel) simp_all
next
  case (Suc n)
  then obtain f where f: "fuel = Suc f" by (cases fuel) simp_all
  have "10 \<le> y" using Suc.prems(1) ten_le_power_Suc [of n] by linarith
  moreover have "exponent_down f (y / 10) = int n"
    using Suc.prems f by (intro Suc.IH) (simp_all add: field_simps)
  ultimately show ?case using f by simp
qed

lemma decade_exists:
  fixes y :: real
  assumes "1 \<le> y"
  obtains n :: nat where "10 ^ n \<le> y" and "y < 10 ^ Suc n"
proof -
  define k where "k = \<lfloor>log 10 y\<rfloor>"
  have "0 \<le> log 10 y" using assms by simp
  then have k0: "0 \<le> k" by (simp add: k_def)
  have a: "10 powr of_int k \<le> y \<and> y < 10 powr (of_int k + 1)"
    using assms floor_log_eq_powr_iff [of y 10 k] by (simp add: k_def)
  have "of_int k + 1 = (of_int (k + 1) :: real)" by simp
  then have b: "y < 10 powr of_int (k + 1)" using a by (simp only:)
  have p: "(10::real) powr of_int k = power_int 10 k"
      "(10::real) powr of_int (k + 1) = power_int 10 (k + 1)"
    by (rule powr_real_of_int'; simp)+
  have "k = int (nat k)" and "k + 1 = int (Suc (nat k))" using k0 by simp_all
  then have "power_int (10::real) k = 10 ^ nat k" "power_int (10::real) (k + 1) = 10 ^ Suc (nat k)"
    by (metis power_int_of_nat)+
  with a b p have "10 ^ nat k \<le> y" and "y < 10 ^ Suc (nat k)" by simp_all
  then show ?thesis by (rule that)
qed

text \<open>A decimal found with \<open>k\<close> digits reads back as the number and lies in its decade.\<close>

lemma shortest_with_Some:
  assumes "shortest_with x k = Some v"
  shows "rnd v = Fin x"
  using assms by (auto simp: shortest_with_def Let_def split: if_splits)

lemma shortest_with_decade:
  assumes v: "shortest_with x k = Some v" and k: "1 \<le> k"
    and e: "decimal_exponent x = int n" and x: "10 ^ n \<le> x" "x < 10 ^ Suc n"
  shows "10 ^ n \<le> v \<and> v \<le> 10 ^ Suc n"
proof -
  define u :: real where "u = power_int 10 (int n + 1 - int k)"
  define s where "s = \<lfloor>x / u\<rfloor>"
  have u: "0 < u" by (simp add: u_def)
  have lo: "10 ^ n = 10 ^ (k - 1) * u"
  proof -
    have "int n = int (k - 1) + (int n + 1 - int k)" using k by simp
    then have "power_int (10::real) (int n) = power_int 10 (int (k - 1)) * u"
      unfolding u_def by (metis power_int_add_1 power_int_add zero_neq_numeral)
    then show ?thesis by simp
  qed
  have hi: "10 ^ Suc n = 10 ^ k * u"
  proof -
    have "int (Suc n) = int k + (int n + 1 - int k)" by simp
    then have "power_int (10::real) (int (Suc n)) = power_int 10 (int k) * u"
      unfolding u_def by (metis power_int_add zero_neq_numeral)
    then show ?thesis by (simp only: power_int_of_nat)
  qed
  have "of_int (10 ^ (k - 1)) \<le> x / u"
    using x(1) u lo by (simp add: pos_le_divide_eq)
  then have s_lo: "10 ^ (k - 1) \<le> s" unfolding s_def by (simp add: le_floor_iff)
  have "x / u < of_int (10 ^ k)"
    using x(2) u hi by (simp add: pos_divide_less_eq)
  then have "s < 10 ^ k" unfolding s_def by (simp add: floor_less_iff)
  then have s_hi: "s + 1 \<le> 10 ^ k" by simp
  have below: "10 ^ n \<le> of_int s * u"
  proof -
    have "real_of_int (10 ^ (k - 1)) \<le> of_int s" using s_lo by (simp only: of_int_le_iff)
    then have "of_int (10 ^ (k - 1)) * u \<le> of_int s * u" using u by (intro mult_right_mono) simp_all
    then show ?thesis using lo by simp
  qed
  have above: "of_int (s + 1) * u \<le> 10 ^ Suc n"
  proof -
    have "real_of_int (s + 1) \<le> of_int (10 ^ k)" using s_hi by (simp only: of_int_le_iff)
    then have "of_int (s + 1) * u \<le> of_int (10 ^ k) * u" using u by (intro mult_right_mono) simp_all
    then show ?thesis using hi by simp
  qed
  have order: "of_int s * u \<le> of_int (s + 1) * u" using u by (intro mult_right_mono) simp_all
  have "v = of_int s * u \<or> v = of_int (s + 1) * u"
    using v e by (auto simp: shortest_with_def Let_def u_def s_def split: if_splits)
  then show ?thesis using below above order by auto
qed

lemma shortest_from_cases:
  "shortest_from fuel k x = x \<or> (\<exists>k'\<ge>k. shortest_with x k' = Some (shortest_from fuel k x))"
proof (induction fuel arbitrary: k)
  case 0
  show ?case by simp
next
  case (Suc fuel)
  show ?case
  proof (cases "shortest_with x k")
    case None
    then show ?thesis using Suc.IH [of "Suc k"] by (auto intro: Suc_leD)
  next
    case (Some v)
    then show ?thesis by auto
  qed
qed

lemma rnd_ten_21: "rnd (10 ^ 21) = Fin (10 ^ 21)"
proof -
  have "(10::real) ^ 21 < pow2 100" by (simp add: pow2_def)
  also have "\<dots> \<le> pow2 1024" by (intro pow2_mono) simp
  finally have "\<bar>(10::real) ^ 21\<bar> < pow2 1024" by simp
  then show ?thesis
    by (intro rnd_exact [where m = "5 ^ 21" and e = 21]) (simp_all add: pow2_def)
qed

lemma shortest_decimal_whole_range:
  assumes "1 \<le> x" and "x < 10 ^ 21"
  shows "1 \<le> shortest_decimal x \<and> shortest_decimal x < 10 ^ 21"
proof -
  obtain n where n: "10 ^ n \<le> x" "x < 10 ^ Suc n" using assms(1) by (rule decade_exists)
  have "(10::real) ^ n < 10 ^ 21" using n(1) assms(2) by linarith
  then have n21: "n < 21" by (rule power_less_imp_less_exp [where a = "10::real", rotated]) simp
  then have e: "decimal_exponent x = int n"
    using n assms(1) by (simp add: decimal_exponent_def exponent_down_eq)
  let ?v = "shortest_decimal x"
  consider "?v = x" | k where "1 \<le> k" "shortest_with x k = Some ?v"
    using shortest_from_cases [of 17 1 x] by (auto simp: shortest_decimal_def)
  then show ?thesis
  proof cases
    case 1
    then show ?thesis using assms by simp
  next
    case 2
    then have b: "10 ^ n \<le> ?v" "?v \<le> 10 ^ Suc n"
      using shortest_with_decade [OF 2(2) 2(1) e n] by simp_all
    have "(1::real) \<le> 10 ^ n" by simp
    then have lo: "1 \<le> ?v" using b(1) by linarith
    have "(10::real) ^ Suc n \<le> 10 ^ 21" using n21 by (intro power_increasing) simp_all
    then have le: "?v \<le> 10 ^ 21" using b(2) by linarith
    have "?v \<noteq> 10 ^ 21"
    proof
      assume "?v = 10 ^ 21"
      then have "rnd (10 ^ 21) = Fin x" using shortest_with_Some [OF 2(2)] by simp
      then show False using rnd_ten_21 assms(2) by simp
    qed
    then show ?thesis using lo le by simp
  qed
qed

lemma parseInt_num_whole:
  assumes "t \<in> \<int>" and "1 \<le> t" and "t < 10 ^ 21"
  shows "parseInt_num (Fin t) = Fin t"
proof -
  from assms(1) obtain k where k: "t = of_int k" by (auto elim: Ints_cases)
  have abs: "\<bar>t\<bar> = t" using assms(2) by simp
  have r: "1 \<le> shortest_decimal t \<and> shortest_decimal t < 10 ^ 21"
    using assms(2,3) by (rule shortest_decimal_whole_range)
  have "(1 :: real) / 10 ^ 6 \<le> 1" by simp
  with r have "1 / 10 ^ 6 \<le> shortest_decimal t" by linarith
  moreover have "sgn t * of_int \<lfloor>\<bar>t\<bar>\<rfloor> = t" using assms(2) k by (simp add: sgn_if)
  ultimately show ?thesis using assms(2) r by (simp add: parseInt_num.simps abs Let_def)
qed

section \<open>Properties of the amortization\<close>

lemma rnd_numeral: "numeral w < (2::int) ^ 53 \<Longrightarrow> rnd (numeral w) = Fin (numeral w)"
  using rnd_of_int [of "numeral w"] by simp

lemma rnd_one: "rnd 1 = Fin 1"
  using rnd_of_int [of 1] by simp

lemma jpow_nat:
  assumes "x \<noteq> 0" and "0 < n"
  shows "jpow (Fin x) (Fin (real n)) = rnd (x ^ n)"
proof -
  have "real n = of_int (int n)" by simp
  then have "\<lfloor>real n\<rfloor> = int n" and "real n \<in> \<int>"
    by (simp_all only: floor_of_int Ints_of_int)
  then show ?thesis using assms by (simp add: power_int_def)
qed

lemma nearest_whole_close: "\<bar>real_of_int (nearest_whole x) - x\<bar> \<le> 1 / 2"
  unfolding nearest_whole_def by linarith

lemma jround_Fin: "jround (Fin x) = Fin (of_int (nearest_whole x))"
  by (simp add: nearest_whole_def)

text \<open>
  C1.  With an annual rate of 0 the calculation has no branch of its own: the monthly
  rate is 0, both powers are 1, and the closed form divides 0 by 0.  For a principal of
  120000 over 10 years the monthly payment and the total interest are NaN, not 1000 and 0.
\<close>

theorem calculatedValues_zero_rate_NaN:
  "calculatedValues \<lparr> InterestRate = Fin 0, MaximumLoan = Fin 120000,
       MinimumDownPayment = Fin 0, LoanTerm = Fin 10 \<rparr>
   = \<lparr> monthlyPayment = NaN, totalInterest = NaN, downPaymentPercentage = Fin 0 \<rparr>"
  by (simp add: calculatedValues_def raw_monthlyPayment_def raw_totalInterest_def
      raw_downPaymentPercentage_def growth_def monthly_rate_def jsub_def rnd_numeral rnd_one)

text \<open>The same for every finite principal and every whole number of years.\<close>

lemma jmul_zero: "jmul a (Fin 0) = Fin 0 \<or> jmul a (Fin 0) = NaN"
  by (cases a) simp_all

lemma jpow_one: "jpow (Fin 1) n = Fin 1 \<or> jpow (Fin 1) n = NaN"
  by (cases n) (simp_all add: rnd_one)

lemma zero_rate_always_NaN:
  assumes "InterestRate bank = Fin 0" and "MaximumLoan bank = Fin ml"
    and "MinimumDownPayment bank = Fin mdp" and "LoanTerm bank = Fin (real years)"
  shows "monthlyPayment (calculatedValues bank) = NaN"
proof -
  have rate: "monthly_rate bank = Fin 0"
    using assms(1) by (simp add: monthly_rate_def)
  have "growth bank = jpow (Fin 1) (jmul (LoanTerm bank) (Fin 12))"
    by (simp add: growth_def rate rnd_one)
  then have g: "growth bank = Fin 1 \<or> growth bank = NaN"
    using jpow_one by simp
  have n: "jmul (jsub (MaximumLoan bank) (MinimumDownPayment bank)) (Fin 0) = Fin 0
      \<or> jmul (jsub (MaximumLoan bank) (MinimumDownPayment bank)) (Fin 0) = NaN"
    by (rule jmul_zero)
  have "raw_monthlyPayment bank = NaN"
    using g n by (auto simp: raw_monthlyPayment_def rate jsub_def)
  then show ?thesis by (simp add: calculatedValues_def)
qed

text \<open>
  C2, as stated, fails in two ways.  With a down payment of 145 on a maximum loan of 1000
  the percentage is 14.5 over the reals, which rounds to 15; the doubles give
  \<open>145 / 1000 * 100 = 14.499999999999998\<close>, which rounds to 14.  At 100 percent over
  1000 years the formula gives a monthly payment of 83, but the growth factor is beyond
  the doubles: \<open>Math.pow\<close> returns \<open>Infinity\<close>, and the payment is \<open>Infinity / Infinity\<close>.
\<close>

lemma overflow_growth: "pow2 1024 \<le> (4878899596318037 / 4503599627370496 :: real) ^ 12000"
proof -
  let ?a = "4878899596318037 / 4503599627370496 :: real"
  have "(2::real) \<le> ?a ^ 10" by (simp add: power_divide)
  then have "(2::real) ^ 1200 \<le> (?a ^ 10) ^ 1200" by (intro power_mono) simp_all
  moreover have "(?a ^ 10) ^ 1200 = ?a ^ 12000" by (simp only: flip: power_mult, simp)
  moreover have "pow2 1024 \<le> pow2 1200" by (intro pow2_mono) simp
  moreover have "pow2 1200 = 2 ^ 1200" using pow2_nat [of 1200] by (simp only: of_nat_numeral)
  ultimately show ?thesis by (simp only:)
qed

lemma formula_at_overflow: "nearest_whole (spec_monthlyPayment 1000 100 1000) = 83"
proof -
  define g :: real where "g = (13 / 12) ^ 12000"
  have "(1000::real) \<le> (13 / 12) ^ 100" by (simp add: power_divide)
  also have "\<dots> \<le> (13 / 12) ^ 12000" by (intro power_increasing) simp_all
  finally have g: "1000 \<le> g" by (simp add: g_def)
  then have pos: "0 < g - 1" by simp
  have val: "spec_monthlyPayment 1000 100 1000 = (250 / 3) * g / (g - 1)"
    by (simp add: spec_monthlyPayment_def Let_def g_def)
  have "165 / 2 \<le> (250 / 3) * g / (g - 1)"
    using g pos by (simp add: pos_le_divide_eq)
  moreover have "(250 / 3) * g / (g - 1) < 167 / 2"
    using g pos by (simp add: pos_divide_less_eq)
  ultimately show ?thesis
    unfolding nearest_whole_def val by (simp add: floor_eq_iff)
qed

theorem calculatedValues_not_exact:
  "downPaymentPercentage (calculatedValues \<lparr> InterestRate = Fin (9 / 2), MaximumLoan = Fin 1000,
       MinimumDownPayment = Fin 145, LoanTerm = Fin 1 \<rparr>) = Fin 14
   \<and> nearest_whole (spec_downPaymentPercentage 145 1000) = 15
   \<and> monthlyPayment (calculatedValues \<lparr> InterestRate = Fin 100, MaximumLoan = Fin 1000,
       MinimumDownPayment = Fin 0, LoanTerm = Fin 1000 \<rparr>) = NaN
   \<and> nearest_whole (spec_monthlyPayment (1000 - 0) 100 1000) = 83"
proof -
  let ?b = "\<lparr> InterestRate = Fin 100, MaximumLoan = Fin 1000,
       MinimumDownPayment = Fin 0, LoanTerm = Fin 1000 \<rparr>"
  have q: "rnd (145 / 1000) = Fin (5224175567749775 / 2 ^ 55)"
    using rnd_eval [where k = "- 3" and x = "145 / 1000" and j = 5224175567749775]
    by (simp add: pow2_def half_even_def)
  have p: "rnd (5224175567749775 / 2 ^ 55 * 100) = Fin (8162774324609023 / 2 ^ 49)"
    using rnd_eval [where k = 3 and x = "5224175567749775 / 2 ^ 55 * 100" and j = 8162774324609023]
    by (simp add: pow2_def half_even_def)
  have dp: "downPaymentPercentage (calculatedValues \<lparr> InterestRate = Fin (9 / 2),
       MaximumLoan = Fin 1000, MinimumDownPayment = Fin 145, LoanTerm = Fin 1 \<rparr>) = Fin 14"
    using q p by (simp add: calculatedValues_def raw_downPaymentPercentage_def)
  have exact: "nearest_whole (spec_downPaymentPercentage 145 1000) = 15"
    by (simp add: nearest_whole_def spec_downPaymentPercentage_def)
  have r: "rnd (1 / 12) = Fin (6004799503160661 / 2 ^ 56)"
    using rnd_eval [where k = "- 4" and x = "1 / 12" and j = 6004799503160661]
    by (simp add: pow2_def half_even_def)
  have a: "rnd (1 + 6004799503160661 / 2 ^ 56) = Fin (4878899596318037 / 4503599627370496)"
    using rnd_eval [where k = 0 and x = "1 + 6004799503160661 / 2 ^ 56" and j = 4878899596318037]
    by (simp add: pow2_def half_even_def)
  have c: "rnd (1000 * (6004799503160661 / 2 ^ 56)) = Fin (5864062014805333 / 70368744177664)"
    using rnd_eval [where k = 6 and x = "1000 * (6004799503160661 / 2 ^ 56)" and j = 5864062014805333]
    by (simp add: pow2_def half_even_def)
  have rate: "monthly_rate ?b = Fin (6004799503160661 / 2 ^ 56)"
    using r by (simp add: monthly_rate_def rnd_numeral rnd_one)
  have base: "jadd (Fin 1) (monthly_rate ?b) = Fin (4878899596318037 / 4503599627370496)"
    using a by (simp add: rate)
  have n: "jmul (LoanTerm ?b) (Fin 12) = Fin (real (12000::nat))"
    by (simp add: rnd_numeral)
  have "growth ?b = rnd ((4878899596318037 / 4503599627370496) ^ 12000)"
    unfolding growth_def base n by (rule jpow_nat) simp_all
  then have g: "growth ?b = PInf"
    using rnd_overflow [OF overflow_growth] by simp
  have num: "jmul (jsub (MaximumLoan ?b) (MinimumDownPayment ?b)) (monthly_rate ?b)
      = Fin (5864062014805333 / 70368744177664)"
    using c by (simp add: rate jsub_def rnd_numeral)
  have "raw_monthlyPayment ?b = NaN"
    unfolding raw_monthlyPayment_def num g by (simp add: jsub_def signed_inf_def)
  then have mp: "monthlyPayment (calculatedValues ?b) = NaN"
    by (simp add: calculatedValues_def)
  show ?thesis using dp exact mp formula_at_overflow by simp
qed

text \<open>
  The specification's example: 500000 less 50000 down at 4.5 percent over 30 years.
  The base of the power is the double nearest to \<open>1.00375\<close>; its 360th power is bracketed
  by repeated powers of ten-digit bounds, and every later operation moves the result by
  less than one part in \<open>1e15\<close>.
\<close>

lemma example_growth_bounds:
  "1923849 / 500000 \<le> (4520488125973135 / 4503599627370496 :: real) ^ 360
   \<and> (4520488125973135 / 4503599627370496 :: real) ^ 360 \<le> 3847699 / 1000000"
proof -
  let ?a = "4520488125973135 / 4503599627370496 :: real"
  have a5: "10188911533 / 10000000000 \<le> ?a ^ 5" "?a ^ 5 \<le> 5094455767 / 5000000000"
    by (simp_all add: power_divide)
  have e45: "?a ^ 45 = (?a ^ 5) ^ 9" and e360: "?a ^ 360 = (?a ^ 45) ^ 8"
    by (simp_all only: flip: power_mult, simp_all)
  have "(11834505689 / 10000000000 :: real) \<le> (10188911533 / 10000000000) ^ 9"
    by (simp add: power_divide)
  also have "\<dots> \<le> (?a ^ 5) ^ 9" using a5(1) by (intro power_mono) simp_all
  finally have l45: "11834505689 / 10000000000 \<le> ?a ^ 45" by (simp only: e45)
  have "(?a ^ 5) ^ 9 \<le> (5094455767 / 5000000000 :: real) ^ 9"
    using a5(2) by (intro power_mono) simp_all
  also have "\<dots> \<le> 118345057 / 100000000" by (simp add: power_divide)
  finally have h45: "?a ^ 45 \<le> 118345057 / 100000000" by (simp only: e45)
  have "(1923849 / 500000 :: real) \<le> (11834505689 / 10000000000) ^ 8" by (simp add: power_divide)
  also have "\<dots> \<le> (?a ^ 45) ^ 8" using l45 by (intro power_mono) simp_all
  finally have lo: "1923849 / 500000 \<le> ?a ^ 360" by (simp only: e360)
  have "(?a ^ 45) ^ 8 \<le> (118345057 / 100000000 :: real) ^ 8"
    using h45 by (intro power_mono) simp_all
  also have "\<dots> \<le> 3847699 / 1000000" by (simp add: power_divide)
  finally have hi: "?a ^ 360 \<le> 3847699 / 1000000" by (simp only: e360)
  show ?thesis using lo hi by simp
qed

lemma example_payment:
  "monthlyPayment (calculatedValues \<lparr> InterestRate = Fin (9 / 2), MaximumLoan = Fin 500000,
       MinimumDownPayment = Fin 50000, LoanTerm = Fin 30 \<rparr>) = Fin 2280"
proof -
  let ?b = "\<lparr> InterestRate = Fin (9 / 2), MaximumLoan = Fin 500000,
       MinimumDownPayment = Fin 50000, LoanTerm = Fin 30 \<rparr>"
  let ?a = "4520488125973135 / 4503599627370496 :: real"
  have r1: "rnd (9 / 2 / 100) = Fin (3242591731706757 / 72057594037927936)"
    using rnd_eval [where k = "- 5" and x = "9 / 2 / 100" and j = 6485183463413514]
    by (simp add: pow2_def half_even_def)
  have r2: "rnd (3242591731706757 / 72057594037927936 / 12)
      = Fin (1080863910568919 / 288230376151711744)"
    using rnd_eval [where k = "- 9" and x = "3242591731706757 / 72057594037927936 / 12"
        and j = 8646911284551352]
    by (simp add: pow2_def half_even_def)
  have a: "rnd (1 + 1080863910568919 / 288230376151711744) = Fin ?a"
    using rnd_eval [where k = 0 and x = "1 + 1080863910568919 / 288230376151711744"
        and j = 4520488125973135]
    by (simp add: pow2_def half_even_def)
  have c: "rnd (450000 * (1080863910568919 / 288230376151711744)) = Fin (3375 / 2)"
    using rnd_eval [where k = 10 and x = "450000 * (1080863910568919 / 288230376151711744)"
        and j = 7421703487488000]
    by (simp add: pow2_def half_even_def)
  have rate: "monthly_rate ?b = Fin (1080863910568919 / 288230376151711744)"
    using r1 r2 by (simp add: monthly_rate_def)
  have base: "jadd (Fin 1) (monthly_rate ?b) = Fin ?a"
    using a by (simp add: rate)
  have n: "jmul (LoanTerm ?b) (Fin 12) = Fin (real (360::nat))"
    by (simp add: rnd_numeral)
  have "growth ?b = rnd (?a ^ 360)"
    unfolding growth_def base n by (rule jpow_nat) simp_all
  moreover have "\<exists>y. rnd (?a ^ 360) = Fin y
      \<and> 1923849 / 500000 - 1923849 / 500000 / 10 ^ 15 \<le> y
      \<and> y \<le> 3847699 / 1000000 + 3847699 / 1000000 / 10 ^ 15"
    by (rule rnd_between) (use example_growth_bounds in simp_all)
  ultimately obtain g where g: "growth ?b = Fin g"
      and "1923849 / 500000 - 1923849 / 500000 / 10 ^ 15 \<le> g"
      and "g \<le> 3847699 / 1000000 + 3847699 / 1000000 / 10 ^ 15"
    by auto
  then have gb: "38476 / 10000 \<le> g" "g \<le> 38478 / 10000" by simp_all
  have num1: "jmul (jsub (MaximumLoan ?b) (MinimumDownPayment ?b)) (monthly_rate ?b)
      = Fin (3375 / 2)"
    using c by (simp add: rate jsub_def rnd_numeral)
  have "\<exists>y. rnd (3375 / 2 * g) = Fin y
      \<and> 64928 / 10 - 64928 / 10 / 10 ^ 15 \<le> y \<and> y \<le> 64932 / 10 + 64932 / 10 / 10 ^ 15"
    by (rule rnd_between) (use gb in simp_all)
  then obtain n2 where n2: "jmul (Fin (3375 / 2)) (Fin g) = Fin n2"
      and "64928 / 10 - 64928 / 10 / 10 ^ 15 \<le> n2" and "n2 \<le> 64932 / 10 + 64932 / 10 / 10 ^ 15"
    by auto
  then have nb: "64927 / 10 \<le> n2" "n2 \<le> 64933 / 10" by simp_all
  have "\<exists>y. rnd (g - 1) = Fin y
      \<and> 28476 / 10000 - 28476 / 10000 / 10 ^ 15 \<le> y \<and> y \<le> 28478 / 10000 + 28478 / 10000 / 10 ^ 15"
    by (rule rnd_between) (use gb in simp_all)
  then obtain d where d: "jsub (Fin g) (Fin 1) = Fin d"
      and "28476 / 10000 - 28476 / 10000 / 10 ^ 15 \<le> d"
      and "d \<le> 28478 / 10000 + 28478 / 10000 / 10 ^ 15"
    by (auto simp: jsub_def)
  then have db: "28475 / 10000 \<le> d" "d \<le> 28479 / 10000" by simp_all
  then have dpos: "0 < d" by simp
  have "22798 / 10 \<le> n2 / d" using nb db dpos by (simp add: pos_le_divide_eq)
  moreover have "n2 / d \<le> 22804 / 10" using nb db dpos by (simp add: pos_divide_le_eq)
  ultimately have "\<exists>y. rnd (n2 / d) = Fin y
      \<and> 22798 / 10 - 22798 / 10 / 10 ^ 15 \<le> y \<and> y \<le> 22804 / 10 + 22804 / 10 / 10 ^ 15"
    by (intro rnd_between) simp_all
  then obtain q where q: "jdiv (Fin n2) (Fin d) = Fin q"
      and "22798 / 10 - 22798 / 10 / 10 ^ 15 \<le> q" and "q \<le> 22804 / 10 + 22804 / 10 / 10 ^ 15"
    using dpos by auto
  then have qb: "22797 / 10 \<le> q" "q \<le> 22805 / 10 - 1 / 100" by simp_all
  have "raw_monthlyPayment ?b = Fin q"
    by (simp only: raw_monthlyPayment_def num1 g n2 d q)
  moreover have "\<lfloor>q + 1 / 2\<rfloor> = 2280" using qb by (simp add: floor_eq_iff)
  ultimately show ?thesis by (simp add: calculatedValues_def)
qed

text \<open>
  C2, amended.  For every offer with an annual rate above 0 the three results are the
  specification's formulas evaluated in the arithmetic of the doubles, from left to
  right, each then rounded by \<open>Math.round\<close>: a result can differ from the formula over
  the reals when a half is near, and is NaN or an infinity where the doubles overflow or
  divide by 0.  At the specification's example the monthly payment is 2280.
\<close>

theorem calculatedValues_positive_rate:
  assumes "InterestRate bank = Fin rate" and "0 < rate"
  shows "calculatedValues bank
       = \<lparr> monthlyPayment = jround (ieee_monthlyPayment
               (jsub (MaximumLoan bank) (MinimumDownPayment bank)) (Fin rate) (LoanTerm bank)),
           totalInterest = jround (ieee_totalInterest
               (jsub (MaximumLoan bank) (MinimumDownPayment bank)) (Fin rate) (LoanTerm bank)),
           downPaymentPercentage = jround (ieee_downPaymentPercentage
               (MinimumDownPayment bank) (MaximumLoan bank)) \<rparr>
       \<and> monthlyPayment (calculatedValues \<lparr> InterestRate = Fin (9 / 2),
             MaximumLoan = Fin 500000, MinimumDownPayment = Fin 50000, LoanTerm = Fin 30 \<rparr>)
           = Fin 2280"
proof -
  have mp: "raw_monthlyPayment bank = ieee_monthlyPayment
      (jsub (MaximumLoan bank) (MinimumDownPayment bank)) (Fin rate) (LoanTerm bank)"
    using assms(1)
    by (simp only: raw_monthlyPayment_def ieee_monthlyPayment_def growth_def monthly_rate_def Let_def)
  have ti: "raw_totalInterest bank = ieee_totalInterest
      (jsub (MaximumLoan bank) (MinimumDownPayment bank)) (Fin rate) (LoanTerm bank)"
    by (simp only: raw_totalInterest_def ieee_totalInterest_def mp)
  have dp: "raw_downPaymentPercentage bank
      = ieee_downPaymentPercentage (MinimumDownPayment bank) (MaximumLoan bank)"
    by (simp only: raw_downPaymentPercentage_def ieee_downPaymentPercentage_def)
  show ?thesis
    using example_payment by (simp only: calculatedValues_def mp ti dp simp_thms)
qed

theorem calculatedValues_positive_rate_witness:
  "monthlyPayment (calculatedValues \<lparr> InterestRate = Fin (9 / 2), MaximumLoan = Fin 500000,
       MinimumDownPayment = Fin 50000, LoanTerm = Fin 30 \<rparr>) = Fin 2280
   \<and> downPaymentPercentage (calculatedValues \<lparr> InterestRate = Fin (9 / 2),
       MaximumLoan = Fin 500000, MinimumDownPayment = Fin 50000, LoanTerm = Fin 30 \<rparr>) = Fin 10"
proof -
  have q: "rnd (50000 / 500000) = Fin (3602879701896397 / 36028797018963968)"
    using rnd_eval [where k = "- 4" and x = "50000 / 500000" and j = 7205759403792794]
    by (simp add: pow2_def half_even_def)
  have p: "rnd (3602879701896397 / 36028797018963968 * 100) = Fin 10"
    using rnd_eval [where k = 3 and x = "3602879701896397 / 36028797018963968 * 100"
        and j = 5629499534213120]
    by (simp add: pow2_def half_even_def)
  let ?b = "\<lparr> InterestRate = Fin (9 / 2), MaximumLoan = Fin 500000,
       MinimumDownPayment = Fin 50000, LoanTerm = Fin 30 \<rparr>"
  have both: "calculatedValues ?b
       = \<lparr> monthlyPayment = jround (ieee_monthlyPayment
               (jsub (MaximumLoan ?b) (MinimumDownPayment ?b)) (Fin (9 / 2)) (LoanTerm ?b)),
           totalInterest = jround (ieee_totalInterest
               (jsub (MaximumLoan ?b) (MinimumDownPayment ?b)) (Fin (9 / 2)) (LoanTerm ?b)),
           downPaymentPercentage = jround (ieee_downPaymentPercentage
               (MinimumDownPayment ?b) (MaximumLoan ?b)) \<rparr>
       \<and> monthlyPayment (calculatedValues ?b) = Fin 2280"
    by (rule calculatedValues_positive_rate) simp_all
  then have all: "calculatedValues ?b
       = \<lparr> monthlyPayment = jround (ieee_monthlyPayment
               (jsub (MaximumLoan ?b) (MinimumDownPayment ?b)) (Fin (9 / 2)) (LoanTerm ?b)),
           totalInterest = jround (ieee_totalInterest
               (jsub (MaximumLoan ?b) (MinimumDownPayment ?b)) (Fin (9 / 2)) (LoanTerm ?b)),
           downPaymentPercentage = jround (ieee_downPaymentPercentage
               (MinimumDownPayment ?b) (MaximumLoan ?b)) \<rparr>"
    by (rule conjunct1)
  have "downPaymentPercentage (calculatedValues ?b) = Fin 10"
    using q p by (simp add: all ieee_downPaymentPercentage_def)
  moreover have "monthlyPayment (calculatedValues ?b) = Fin 2280"
    using both by (rule conjunct2)
  ultimately show ?thesis by (intro conjI)
qed

section \<open>Properties of the state store\<close>

text \<open>
  C7.  Whatever the state, the fetch-fulfilled transition leaves exactly its payload as
  the collection; so after any sequence of dispatched actions, optimistic adds and
  optimistic deletes that ends with a fulfilled fetch, the collection is that fetch's
  payload: an add made while the fetch was in flight is kept only if the payload has it.
\<close>

theorem fetch_fulfilled_replaces_items:
  "items (banksReducer state (FetchBanksFulfilled payload)) = payload
   \<and> items (store_run state (events @ [Dispatch (FetchBanksFulfilled payload)])) = payload"
  by (simp add: store_run_def)

text \<open>
  C8.  The fetch-rejected transition stores the error and clears the loading flag; the
  collection and every other field of the state are as they were.
\<close>

theorem fetch_rejected_keeps_items:
  "items (banksReducer state (FetchBanksRejected msg)) = items state
   \<and> banks_state.more (banksReducer state (FetchBanksRejected msg)) = banks_state.more state
   \<and> error (banksReducer state (FetchBanksRejected msg)) = Some msg
   \<and> loading (banksReducer state (FetchBanksRejected msg)) = False"
  by simp

section \<open>Properties of the add operation\<close>

lemma add_bank_rejected:
  "validate c existing \<noteq> [] \<Longrightarrow> add_bank c existing = (validate c existing, existing)"
  by (simp add: add_bank_def Let_def)

lemma add_bank_names:
  "set (map BankName (snd (add_bank c existing)))
     \<subseteq> insert (name c) (set (map BankName existing))"
  by (auto simp: add_bank_def Let_def offer_of_def)

lemma add_bank_distinct:
  assumes "distinct (map BankName existing)"
  shows "distinct (map BankName (snd (add_bank c existing)))"
proof (cases "validate c existing = []")
  case True
  then have "check_duplicate (name c) existing = []"
    by (simp add: validate_def)
  then have "name c \<notin> set (map BankName existing)"
    by (simp add: check_duplicate_def split: if_splits)
  with assms True show ?thesis
    by (simp add: add_bank_def offer_of_def)
next
  case False
  with assms show ?thesis by (simp add: add_bank_rejected)
qed

text \<open>
  C9.  A candidate whose name is the name of an existing record is rejected with the
  duplicate-name error and the collection is returned as it was, so its length is
  unchanged; and every add keeps the names of the collection distinct.
\<close>

theorem add_bank_duplicate_rejected:
  assumes "b \<in> set existing" and "BankName b = name c"
  shows "(NameField, Duplicate) \<in> set (fst (add_bank c existing))
       \<and> snd (add_bank c existing) = existing
       \<and> length (snd (add_bank c existing)) = length existing
       \<and> (distinct (map BankName existing)
            \<longrightarrow> distinct (map BankName (snd (add_bank c' existing))))"
proof -
  have dup: "(NameField, Duplicate) \<in> set (validate c existing)"
    using assms by (force simp: validate_def check_duplicate_def)
  then have "validate c existing \<noteq> []" by auto
  then have "add_bank c existing = (validate c existing, existing)"
    by (rule add_bank_rejected)
  with dup show ?thesis by (simp add: add_bank_distinct)
qed

theorem add_bank_duplicate_rejected_witness:
  "add_bank \<lparr> name = ''Existing Bank'', interestRate = Some (42 / 10),
       maximumLoan = Some 400000, minimumDownPayment = Some 40000, loanTermYears = Some 25 \<rparr>
     [\<lparr> InterestRate = Fin (45 / 10), MaximumLoan = Fin 500000,
        MinimumDownPayment = Fin 50000, LoanTerm = Fin 30, BankName = ''Existing Bank'' \<rparr>]
   = ([(NameField, Duplicate)],
      [\<lparr> InterestRate = Fin (45 / 10), MaximumLoan = Fin 500000,
         MinimumDownPayment = Fin 50000, LoanTerm = Fin 30, BankName = ''Existing Bank'' \<rparr>])"
  using add_bank_duplicate_rejected [of
      "\<lparr> InterestRate = Fin (45 / 10), MaximumLoan = Fin 500000,
         MinimumDownPayment = Fin 50000, LoanTerm = Fin 30, BankName = ''Existing Bank'' \<rparr>"
      "[\<lparr> InterestRate = Fin (45 / 10), MaximumLoan = Fin 500000,
         MinimumDownPayment = Fin 50000, LoanTerm = Fin 30, BankName = ''Existing Bank'' \<rparr>]"
      "\<lparr> name = ''Existing Bank'', interestRate = Some (42 / 10),
       maximumLoan = Some 400000, minimumDownPayment = Some 40000, loanTermYears = Some 25 \<rparr>"]
  by (simp add: add_bank_def validate_def check_name_def check_number_def check_duplicate_def
      blank_def upper_case_def)

section \<open>Properties of the JSON import\<close>

text \<open>
  C3.  A field check of the import is \<open>!value || isNaN(value)\<close>, and \<open>!value\<close> holds for
  the number 0.  An element whose fields are all present and numeric, with a minimum
  down payment of 0, fails the import with the field error for that field.
\<close>

theorem importBanksFromJSON_rejects_zero:
  "importBanksFromJSON ''application/json''
     (Some (JArr [JObj [(''BankName'', JStr ''Test Bank''),
                        (''InterestRate'', JNum (Fin (35 / 10))),
                        (''MaximumLoan'', JNum (Fin 500000)),
                        (''MinimumDownPayment'', JNum (Fin 0)),
                        (''LoanTerm'', JNum (Fin 30))]]))
   = Inl (FieldError 1 ''MinimumDownPayment'')"
  by (simp add: importBanksFromJSON_def validate_bank_def field_invalid_def isNaN_def)

lemma validate_bank_exported:
  assumes "valid_offer bank" and "survives_json bank"
  shows "validate_bank i (bank_to_json bank) = Inr bank"
proof -
  obtain r m d t where f: "InterestRate bank = Fin r" "MaximumLoan bank = Fin m"
      "MinimumDownPayment bank = Fin d" "LoanTerm bank = Fin t"
    using assms(1) by (auto simp: valid_offer_def split: jsnum.splits)
  have nz: "r \<noteq> 0" "m \<noteq> 0" "d \<noteq> 0" and t: "t \<in> \<int>" "1 \<le> t" "t < 10 ^ 21"
    and n: "BankName bank \<noteq> []" "trim (BankName bank) = BankName bank"
    using assms f by (auto simp: valid_offer_def survives_json_def)
  have "parseInt_num (Fin t) = Fin t" using t by (rule parseInt_num_whole)
  moreover have "t \<noteq> 0" using t(2) by simp
  ultimately show ?thesis
    using f nz n
    by (simp add: validate_bank_def bank_to_json_def json_number_def field_invalid_def
        isNaN_def string_of_def)
qed

lemma validate_banks_exported:
  assumes "\<forall>bank \<in> set banks. valid_offer bank \<and> survives_json bank"
  shows "validate_banks i (map bank_to_json banks) = Inr banks"
  using assms by (induction banks arbitrary: i) (simp_all add: validate_bank_exported)

text \<open>
  C5, as stated, fails on a valid offer whose name ends in a space: the import trims the
  name, so the collection read back differs from the one written.
\<close>

theorem json_round_trip_trims_name:
  "valid_offer \<lparr> InterestRate = Fin (35 / 10), MaximumLoan = Fin 500000,
       MinimumDownPayment = Fin 50000, LoanTerm = Fin 30, BankName = ''First Bank '' \<rparr>
   \<and> importBanksFromJSON ''application/json''
       (Some (exportBanksToJSON [\<lparr> InterestRate = Fin (35 / 10), MaximumLoan = Fin 500000,
          MinimumDownPayment = Fin 50000, LoanTerm = Fin 30, BankName = ''First Bank '' \<rparr>]))
     = Inr [\<lparr> InterestRate = Fin (35 / 10), MaximumLoan = Fin 500000,
          MinimumDownPayment = Fin 50000, LoanTerm = Fin 30, BankName = ''First Bank'' \<rparr>]
   \<and> importBanksFromJSON ''application/json''
       (Some (exportBanksToJSON [\<lparr> InterestRate = Fin (35 / 10), MaximumLoan = Fin 500000,
          MinimumDownPayment = Fin 50000, LoanTerm = Fin 30, BankName = ''First Bank '' \<rparr>]))
     \<noteq> Inr [\<lparr> InterestRate = Fin (35 / 10), MaximumLoan = Fin 500000,
          MinimumDownPayment = Fin 50000, LoanTerm = Fin 30, BankName = ''First Bank '' \<rparr>]"
  by (simp add: valid_offer_def importBanksFromJSON_def exportBanksToJSON_def validate_bank_def
      bank_to_json_def json_number_def field_invalid_def isNaN_def string_of_def
      trim_def trimStart_def trimEnd_def is_space_def parseInt_num_whole)

text \<open>
  C5, amended.  For every collection of valid offers whose names have no white space
  around them, whose rate, maximum loan and minimum down payment are not 0 and whose
  term is below \<open>1e21\<close>, the import of the exported collection succeeds and returns
  the collection.
\<close>

theorem json_round_trip:
  assumes "\<forall>bank \<in> set banks. valid_offer bank \<and> survives_json bank"
  shows "importBanksFromJSON ''application/json'' (Some (exportBanksToJSON banks)) = Inr banks"
  using assms by (simp add: importBanksFromJSON_def exportBanksToJSON_def validate_banks_exported)

theorem json_round_trip_witness:
  "importBanksFromJSON ''application/json''
     (Some (exportBanksToJSON
        [\<lparr> InterestRate = Fin (35 / 10), MaximumLoan = Fin 500000,
           MinimumDownPayment = Fin 50000, LoanTerm = Fin 30, BankName = ''Test Bank 1'' \<rparr>,
         \<lparr> InterestRate = Fin (42 / 10), MaximumLoan = Fin 750000,
           MinimumDownPayment = Fin 75000, LoanTerm = Fin 25, BankName = ''Test Bank 2'' \<rparr>]))
   = Inr [\<lparr> InterestRate = Fin (35 / 10), MaximumLoan = Fin 500000,
           MinimumDownPayment = Fin 50000, LoanTerm = Fin 30, BankName = ''Test Bank 1'' \<rparr>,
         \<lparr> InterestRate = Fin (42 / 10), MaximumLoan = Fin 750000,
           MinimumDownPayment = Fin 75000, LoanTerm = Fin 25, BankName = ''Test Bank 2'' \<rparr>]"
  using json_round_trip [of
        "[\<lparr> InterestRate = Fin (35 / 10), MaximumLoan = Fin 500000,
           MinimumDownPayment = Fin 50000, LoanTerm = Fin 30, BankName = ''Test Bank 1'' \<rparr>,
         \<lparr> InterestRate = Fin (42 / 10), MaximumLoan = Fin 750000,
           MinimumDownPayment = Fin 75000, LoanTerm = Fin 25, BankName = ''Test Bank 2'' \<rparr>]"]
  by (simp add: valid_offer_def survives_json_def trim_def trimStart_def trimEnd_def
      is_space_def)

section \<open>Properties of the CSV export\<close>

text \<open>
  C6.  For the empty collection the body throws \<open>No banks data to export\<close> inside the
  \<open>try\<close> block, and the \<open>catch\<close> block replaces it: the caller gets the general
  \<open>Failed to export banks data\<close>, the error of any other failure of the export.
\<close>

theorem exportBanksToCSV_empty:
  "csv_content [] = Inl NoBanksData \<and> exportBanksToCSV [] = Inl ExportFailed"
  by (simp add: exportBanksToCSV_def csv_content_def)

text \<open>A collection that is not empty gives the header line and one row for each bank,
  in the order of the collection, the name between quotes.\<close>

lemma exportBanksToCSV_nonempty:
  "banks \<noteq> [] \<Longrightarrow> exportBanksToCSV banks
     = Inr (join [line_feed] (join '','' csv_headers # map csv_row banks))"
  by (simp add: exportBanksToCSV_def csv_content_def)

lemma csv_header_line:
  "join '','' csv_headers
     = ''Bank Name,Interest Rate (%),Maximum Loan ($),Minimum Down Payment ($),Loan Term (years)''"
  by (simp add: csv_headers_def)

lemma csv_row_quoted:
  "csv_row bank = [quote] @ BankName bank @ [quote] @ '','' @ number_to_string (InterestRate bank)
     @ '','' @ number_to_string (MaximumLoan bank) @ '','' @ number_to_string (MinimumDownPayment bank)
     @ '','' @ number_to_string (LoanTerm bank)"
  by (simp add: csv_row_def)

section \<open>Properties of the CSV import\<close>

lemma parse_row_columns:
  "length (row_values line) \<noteq> 5 \<Longrightarrow>
     parse_row i line = Inl (RowError (i + 1) ''Invalid number of columns'')"
  by (simp add: parse_row_def csv_headers_def)




lemma first_fault_None: "first_fault rows = None \<longleftrightarrow> (\<forall>row \<in> set rows. \<not> row_fault row)"
  by (induction rows) auto



lemma rnd_7_2: "rnd (7 / 2) = Fin (7 / 2)"
  using rnd_exact [where x = "7 / 2" and m = 7 and e = "- 1"] pow2_1024_big
  by (simp add: pow2_def)

lemmas csv_eval = csv_lines_def line_feed_def quote_def trim_def trimStart_def trimEnd_def is_space_def
  row_values_def strip_quotes_def parseFloat_str_def parseInt_str_def str_decimal_def
  unsigned_decimal_def exponent_part_def sign_prefix_def digits_value_def radix_digit_def
  is_digit_def Let_def rnd_numeral rnd_one rnd_7_2

lemma header_columns:
  "length (split_on CHR '','' ''Bank Name,Interest Rate (%),Maximum Loan ($),Minimum Down Payment ($),Loan Term (years)'') = 5"
  by simp

lemma read_numbers:
  "parseFloat_str ''3.5'' = Fin (35 / 10)" "parseFloat_str ''500000'' = Fin 500000"
  "parseFloat_str ''50000'' = Fin 50000" "parseInt_str ''30'' = Fin 30"
  "parseFloat_str ''1'' = Fin 1" "parseInt_str ''1'' = Fin 1" "parseFloat_str ''0'' = Fin 0"
  by (simp_all add: csv_eval)




text \<open>
  The CSV import takes a minimum down payment of 0, which the JSON import rejects: its
  range check is \<open>value < 0\<close>.
\<close>

lemma importBanksFromCSV_accepts_zero:
  \<open>importBanksFromCSV ''text/csv''
     ''Bank Name,Interest Rate (%),Maximum Loan ($),Minimum Down Payment ($),Loan Term (years)\<newline>"Test Bank",3.5,500000,0,30''
   = Inr [\<lparr> InterestRate = Fin (35 / 10), MaximumLoan = Fin 500000,
            MinimumDownPayment = Fin 0, LoanTerm = Fin 30, BankName = ''Test Bank'' \<rparr>]\<close>
proof -
  have lines: \<open>csv_lines ''Bank Name,Interest Rate (%),Maximum Loan ($),Minimum Down Payment ($),Loan Term (years)\<newline>"Test Bank",3.5,500000,0,30''
      = [''Bank Name,Interest Rate (%),Maximum Loan ($),Minimum Down Payment ($),Loan Term (years)'',
         ''"Test Bank",3.5,500000,0,30'']\<close>
    by (simp add: csv_lines_def line_feed_def trim_def trimStart_def trimEnd_def is_space_def)
  have vals: \<open>row_values ''"Test Bank",3.5,500000,0,30''
        = [''Test Bank'', ''3.5'', ''500000'', ''0'', ''30'']\<close>
    by (simp add: row_values_def strip_quotes_def quote_def trim_def trimStart_def trimEnd_def
        is_space_def)
  show ?thesis
    by (simp add: importBanksFromCSV_def parse_row_def csv_headers_def lines vals read_numbers
        header_columns del: split_on.simps)
qed

text \<open>
  The import reads a numeric field by its longest numeric prefix: a rate written
  \<open>3.5abc\<close>, which is no number as a whole, is read as 3.5 and the row is taken.  The
  JSON import rejects the same text.
\<close>

lemma importBanksFromCSV_reads_prefix:
  \<open>strict_number ''3.5abc'' = NaN
   \<and> importBanksFromCSV ''text/csv''
     ''Bank Name,Interest Rate (%),Maximum Loan ($),Minimum Down Payment ($),Loan Term (years)\<newline>"Test Bank",3.5abc,500000,50000,30''
   = Inr [\<lparr> InterestRate = Fin (35 / 10), MaximumLoan = Fin 500000,
            MinimumDownPayment = Fin 50000, LoanTerm = Fin 30, BankName = ''Test Bank'' \<rparr>]
   \<and> importBanksFromJSON ''application/json''
     (Some (JArr [JObj [(''BankName'', JStr ''Test Bank''), (''InterestRate'', JStr ''3.5abc''),
        (''MaximumLoan'', JNum (Fin 500000)), (''MinimumDownPayment'', JNum (Fin 50000)),
        (''LoanTerm'', JNum (Fin 30))]]))
   = Inl (FieldError 1 ''InterestRate'')\<close>
proof -
  have lines: \<open>csv_lines ''Bank Name,Interest Rate (%),Maximum Loan ($),Minimum Down Payment ($),Loan Term (years)\<newline>"Test Bank",3.5abc,500000,50000,30''
      = [''Bank Name,Interest Rate (%),Maximum Loan ($),Minimum Down Payment ($),Loan Term (years)'',
         ''"Test Bank",3.5abc,500000,50000,30'']\<close>
    by (simp add: csv_lines_def line_feed_def trim_def trimStart_def trimEnd_def is_space_def)
  have vals: \<open>row_values ''"Test Bank",3.5abc,500000,50000,30''
        = [''Test Bank'', ''3.5abc'', ''500000'', ''50000'', ''30'']\<close>
    by (simp add: row_values_def strip_quotes_def quote_def trim_def trimStart_def trimEnd_def
        is_space_def)
  have prefix: "parseFloat_str ''3.5abc'' = Fin (35 / 10)"
    by (simp add: csv_eval)
  have whole: "str_to_number ''3.5abc'' = NaN"
    by (simp add: str_to_number_def radix_prefix_def csv_eval)
  then have strict: "strict_number ''3.5abc'' = NaN"
    by (simp add: strict_number_def)
  have csv: \<open>importBanksFromCSV ''text/csv''
     ''Bank Name,Interest Rate (%),Maximum Loan ($),Minimum Down Payment ($),Loan Term (years)\<newline>"Test Bank",3.5abc,500000,50000,30''
   = Inr [\<lparr> InterestRate = Fin (35 / 10), MaximumLoan = Fin 500000,
            MinimumDownPayment = Fin 50000, LoanTerm = Fin 30, BankName = ''Test Bank'' \<rparr>]\<close>
    by (simp add: importBanksFromCSV_def parse_row_def csv_headers_def lines vals read_numbers
        prefix header_columns del: split_on.simps)
  have json: \<open>importBanksFromJSON ''application/json''
     (Some (JArr [JObj [(''BankName'', JStr ''Test Bank''), (''InterestRate'', JStr ''3.5abc''),
        (''MaximumLoan'', JNum (Fin 500000)), (''MinimumDownPayment'', JNum (Fin 50000)),
        (''LoanTerm'', JNum (Fin 30))]]))
   = Inl (FieldError 1 ''InterestRate'')\<close>
    by (simp add: importBanksFromJSON_def validate_bank_def field_invalid_def isNaN_def whole)
  show ?thesis using strict csv json by simp
qed

section \<open>CSV export followed by CSV import\<close>

lemma split_on_nonempty: "split_on c s \<noteq> []"
  by (induction s) (auto split: list.splits)

lemma split_on_no_sep: "c \<notin> set s \<Longrightarrow> split_on c s = [s]"
  by (induction s) auto

lemma split_on_append:
  "c \<notin> set xs \<Longrightarrow> split_on c (xs @ c # ys) = xs # split_on c ys"
  by (induction xs) (auto split: list.splits)

lemma length_split_on: "length (split_on c s) = Suc (count_list s c)"
  by (induction s) (auto split: list.splits simp: split_on_nonempty)

lemma trim_empty_iff: "trim s = [] \<longleftrightarrow> (\<forall>c \<in> set s. is_space c)"
proof
  assume "trim s = []"
  then have all: "\<forall>c \<in> set (dropWhile is_space s). is_space c"
    by (simp add: trim_def trimEnd_def trimStart_def dropWhile_eq_Nil_conv)
  have "dropWhile is_space s = []"
  proof (rule ccontr)
    assume ne: "dropWhile is_space s \<noteq> []"
    then have "\<not> is_space (hd (dropWhile is_space s))" by (rule hd_dropWhile)
    moreover have "hd (dropWhile is_space s) \<in> set (dropWhile is_space s)"
      using ne by simp
    ultimately show False using all by blast
  qed
  then show "\<forall>c \<in> set s. is_space c" by (simp add: dropWhile_eq_Nil_conv)
next
  assume "\<forall>c \<in> set s. is_space c"
  then show "trim s = []"
    by (auto simp: trim_def trimEnd_def trimStart_def dest: set_dropWhileD)
qed

lemma digit_char_digit: "is_digit (digit_char d)"
proof -
  have "is_digit (''0123456789'' ! k)" if "k < 10" for k
  proof -
    from that have "k \<in> {0, 1, 2, 3, 4, 5, 6, 7, 8, 9}" by auto
    then show ?thesis by (auto simp: is_digit_def)
  qed
  then show ?thesis by (simp add: digit_char_def)
qed

lemma nat_digits_digits: "\<forall>c \<in> set (nat_digits n). is_digit c"
proof (induction n rule: nat_digits.induct)
  case (1 n)
  show ?case
    by (subst nat_digits.simps) (use 1 in \<open>auto simp: digit_char_digit\<close>)
qed

lemma frac_digits_digits: "\<forall>c \<in> set (frac_digits fuel x). is_digit c"
  by (induction fuel arbitrary: x) (auto simp: digit_char_digit)

lemma line_feed_no_digit: "\<not> is_digit line_feed"
  by (simp add: is_digit_def line_feed_def)

lemma decimal_digits_no_line_feed: "line_feed \<notin> set (decimal_digits y)"
  using nat_digits_digits frac_digits_digits line_feed_no_digit
  by (auto simp: decimal_digits_def line_feed_def)

lemma positive_to_string_no_line_feed: "line_feed \<notin> set (positive_to_string y)"
  using decimal_digits_no_line_feed nat_digits_digits line_feed_no_digit
  by (auto simp: positive_to_string_def Let_def line_feed_def)

lemma number_to_string_no_line_feed: "line_feed \<notin> set (number_to_string n)"
  using positive_to_string_no_line_feed
  by (cases n) (auto simp: line_feed_def)

lemma csv_row_no_line_feed:
  "line_feed \<notin> set (BankName bank) \<Longrightarrow> line_feed \<notin> set (csv_row bank)"
  using number_to_string_no_line_feed
  by (auto simp: csv_row_def quote_def line_feed_def)

lemma csv_row_columns:
  assumes "CHR '','' \<in> set (BankName bank)"
  shows "5 < length (split_on CHR '','' (csv_row bank))"
proof -
  have "count_list (BankName bank) CHR '','' \<noteq> 0"
    using assms by (simp only: count_list_0_iff not_not)
  then have "0 < count_list (BankName bank) CHR '',''" by simp
  then have "5 \<le> count_list (csv_row bank) CHR '',''"
    by (simp add: csv_row_def quote_def)
  then show ?thesis by (simp add: length_split_on)
qed

lemma csv_row_not_blank: "trim (csv_row bank) \<noteq> []"
proof -
  have "quote \<in> set (csv_row bank)" by (simp add: csv_row_def)
  moreover have "\<not> is_space quote" by (simp add: is_space_def quote_def)
  ultimately show ?thesis by (auto simp: trim_empty_iff)
qed

lemma header_line_facts:
  "line_feed \<notin> set header_line" "trim header_line \<noteq> []"
  "length (split_on CHR '','' header_line) = 5"
  by (simp_all add: header_line_def csv_headers_def line_feed_def trim_def trimStart_def
      trimEnd_def is_space_def)

lemma split_on_sep:
  "split_on c (xs @ c # ys) = split_on c xs @ split_on c ys"
  by (induction xs) (auto split: list.splits simp: split_on_nonempty)

lemma split_on_join_Cons:
  "split_on c (join [c] (r # rows)) = concat (map (split_on c) (r # rows))"
proof (induction rows arbitrary: r)
  case Nil
  show ?case by simp
next
  case (Cons q rows)
  have "join [c] (r # q # rows) = r @ c # join [c] (q # rows)" by simp
  then show ?case using Cons.IH [of q] by (simp only: split_on_sep) simp
qed

lemma split_on_join:
  "rows \<noteq> [] \<Longrightarrow> split_on c (join [c] rows) = concat (map (split_on c) rows)"
  by (cases rows) (simp_all only: split_on_join_Cons, simp_all)

lemma split_on_pieces: "p \<in> set (split_on c s) \<Longrightarrow> c \<notin> set p"
proof (induction s arbitrary: p)
  case Nil
  then show ?case by simp
next
  case (Cons a s)
  show ?case
  proof (cases "a = c")
    case True
    then show ?thesis using Cons by auto
  next
    case False
    obtain q qs where q: "split_on c s = q # qs"
      using split_on_nonempty [of c s] by (cases "split_on c s") auto
    then have "p = a # q \<or> p \<in> set qs" using Cons.prems False by simp
    moreover have "c \<notin> set q" using Cons.IH [of q] q by simp
    moreover have "p \<in> set qs \<Longrightarrow> c \<notin> set p" using Cons.IH [of p] q by simp
    ultimately show ?thesis using False by auto
  qed
qed

lemma set_trim: "set (trim s) \<subseteq> set s"
proof -
  have "set (dropWhile is_space (rev (dropWhile is_space s))) \<subseteq> set (rev (dropWhile is_space s))"
    by (auto dest: set_dropWhileD)
  also have "\<dots> \<subseteq> set s" by (auto dest: set_dropWhileD)
  finally show ?thesis by (simp add: trim_def trimStart_def trimEnd_def)
qed

lemma set_strip_quotes: "set (strip_quotes v) \<subseteq> set v"
  by (cases v) (auto simp: strip_quotes_def Let_def dest: in_set_butlastD split: if_splits)

text \<open>The lines of an exported text: the header line, then the lines of the rows.\<close>

lemma exported_lines:
  assumes "line_feed \<notin> set (BankName b)"
  shows "\<exists>content before rest. exportBanksToCSV (pre @ b # post) = Inr content
           \<and> csv_lines content = header_line # before @ csv_row b # rest
           \<and> ((\<forall>x \<in> set pre. line_feed \<notin> set (BankName x)) \<longrightarrow> before = map csv_row pre)"
proof -
  let ?nb = "\<lambda>line. trim line \<noteq> []"
  let ?rows = "header_line # map csv_row (pre @ b # post)"
  define before where "before = filter ?nb (concat (map (split_on line_feed) (map csv_row pre)))"
  define rest where "rest = filter ?nb (concat (map (split_on line_feed) (map csv_row post)))"
  have content: "exportBanksToCSV (pre @ b # post) = Inr (join [line_feed] ?rows)"
    by (simp add: exportBanksToCSV_def csv_content_def header_line_def)
  have row: "split_on line_feed (csv_row b) = [csv_row b]"
    using assms by (simp add: csv_row_no_line_feed split_on_no_sep)
  have header: "split_on line_feed header_line = [header_line]"
    using header_line_facts(1) by (simp add: split_on_no_sep)
  have "split_on line_feed (join [line_feed] ?rows) = concat (map (split_on line_feed) ?rows)"
    by (rule split_on_join) simp
  then have lines: "csv_lines (join [line_feed] ?rows) = header_line # before @ csv_row b # rest"
    using header_line_facts(2) csv_row_not_blank
    by (simp add: csv_lines_def row header before_def rest_def)
  have "before = map csv_row pre" if "\<forall>x \<in> set pre. line_feed \<notin> set (BankName x)"
  proof -
    have "concat (map (split_on line_feed) (map csv_row xs)) = map csv_row xs"
      if "\<forall>x \<in> set xs. line_feed \<notin> set (BankName x)" for xs
      using that by (induction xs) (simp_all add: csv_row_no_line_feed split_on_no_sep)
    then show ?thesis using that csv_row_not_blank by (simp add: before_def)
  qed
  with content lines show ?thesis by blast
qed

text \<open>What the loop of the import does with a row does not depend on its number.\<close>

lemma parse_row_error: "parse_row i line = Inl e \<Longrightarrow> \<exists>msg. e = RowError (i + 1) msg"
  by (auto simp: parse_row_def Let_def split: if_splits)

lemma row_accepted_parse: "row_accepted line \<Longrightarrow> \<exists>bank. parse_row i line = Inr bank"
  by (auto simp: row_accepted_def parse_row_def Let_def split: if_splits)

lemma parse_rows_error: "parse_rows i rows = Inl e \<Longrightarrow> \<exists>n msg. e = RowError n msg"
proof (induction rows arbitrary: i)
  case Nil
  then show ?case by simp
next
  case (Cons row rows)
  then show ?case
    by (auto split: sum.splits dest: parse_row_error)
qed

lemma parse_rows_stops:
  assumes "length (row_values bad) \<noteq> 5"
  shows "\<exists>e. parse_rows i (xs @ bad # ys) = Inl e"
proof (induction xs arbitrary: i)
  case Nil
  show ?case using parse_row_columns [OF assms, of i] by simp
next
  case (Cons x xs)
  show ?case using Cons.IH [of "i + 1"] by (auto split: sum.splits)
qed

lemma parse_rows_reaches:
  assumes "\<forall>x \<in> set xs. row_accepted x" and "length (row_values bad) \<noteq> 5"
  shows "parse_rows i (xs @ bad # ys)
      = Inl (RowError (i + length xs + 1) ''Invalid number of columns'')"
  using assms(1)
proof (induction xs arbitrary: i)
  case Nil
  show ?case using parse_row_columns [OF assms(2), of i] by simp
next
  case (Cons x xs)
  then obtain bank where "parse_row i x = Inr bank"
    using row_accepted_parse [of x i] by auto
  moreover have "parse_rows (i + 1) (xs @ bad # ys)
      = Inl (RowError (i + 1 + length xs + 1) ''Invalid number of columns'')"
    using Cons.prems by (intro Cons.IH) simp
  ultimately show ?case by simp
qed

text \<open>No name that the import returns has a comma.\<close>

lemma parse_row_name:
  assumes "parse_row i line = Inr bank"
  shows "CHR '','' \<notin> set (BankName bank)"
proof -
  have len: "length (split_on CHR '','' line) = 5" and
    name: "BankName bank = strip_quotes (trim (split_on CHR '','' line ! 0))"
    using assms by (auto simp: parse_row_def Let_def row_values_def csv_headers_def split: if_splits)
  have "split_on CHR '','' line ! 0 \<in> set (split_on CHR '','' line)" using len by simp
  then have "CHR '','' \<notin> set (split_on CHR '','' line ! 0)" by (rule split_on_pieces)
  then show ?thesis using set_trim set_strip_quotes unfolding name by blast
qed

lemma parse_rows_names:
  "parse_rows i rows = Inr banks \<Longrightarrow> \<forall>bank \<in> set banks. CHR '','' \<notin> set (BankName bank)"
proof (induction rows arbitrary: i banks)
  case Nil
  then show ?case by simp
next
  case (Cons row rows)
  then show ?case by (auto split: sum.splits dest: parse_row_name)
qed

lemma imported_names:
  assumes "importBanksFromCSV file_type content = Inr banks"
  shows "\<forall>bank \<in> set banks. CHR '','' \<notin> set (BankName bank)"
proof -
  have "parse_rows 1 (tl (csv_lines content)) = Inr banks"
    using assms by (simp add: importBanksFromCSV_def Let_def split: if_splits)
  then show ?thesis by (rule parse_rows_names)
qed

lemma frac_digits_numeral:
  "frac_digits (numeral k) x =
     (if x = 0 then []
      else digit_char (nat \<lfloor>10 * x\<rfloor>) # frac_digits (pred_numeral k) (10 * x - of_int \<lfloor>10 * x\<rfloor>))"
  by (simp add: numeral_eq_Suc)

lemmas number_eval = positive_to_string_def decimal_digits_def nat_digits.simps
  frac_digits_numeral digit_char_def

lemma exponent_down_numeral:
  "exponent_down (numeral k) y
     = (if y < 10 then 0 else 1 + exponent_down (pred_numeral k) (y / 10))"
  by (simp add: numeral_eq_Suc)

lemma shortest_from_numeral:
  "shortest_from (numeral f) k x
     = (case shortest_with x k of Some v \<Rightarrow> v | None \<Rightarrow> shortest_from (pred_numeral f) (Suc k) x)"
  by (simp add: numeral_eq_Suc)

lemma shortest_examples:
  "shortest_decimal (7 / 2) = 7 / 2" "shortest_decimal 500000 = 500000"
  "shortest_decimal 50000 = 50000" "shortest_decimal 30 = 30"
proof -
  have far: "rnd (18 / 5) \<noteq> Fin (7 / 2)" by (rule rnd_neq) simp_all
  show "shortest_decimal (7 / 2) = 7 / 2" "shortest_decimal 500000 = 500000"
    "shortest_decimal 50000 = 50000" "shortest_decimal 30 = 30"
    using far
    by (simp_all add: shortest_decimal_def shortest_from_numeral shortest_with_def
        decimal_exponent_def exponent_down_numeral Let_def rnd_numeral rnd_7_2)
qed

lemma printed_numbers:
  "number_to_string (Fin (7 / 2)) = ''3.5''"
  "number_to_string (Fin 500000) = ''500000''"
  "number_to_string (Fin 50000) = ''50000''"
  "number_to_string (Fin 30) = ''30''"
  by (simp_all add: shortest_examples number_eval)

text \<open>
  C10, as stated, fails in two ways.  The import splits the text into lines first, so a
  quoted name with a line feed ends its line early: for the first name below both
  pieces happen to have 5 values, and the import succeeds with two records.  And the
  import stops at the first row it rejects: behind a bank with an empty name, the
  error is the one for that name, in row 2, not the column error.
\<close>

theorem csv_round_trip_other_outcomes:
  \<open>CHR '','' \<in> set ''Alpha,1,1,1,1\<newline>Beta''
   \<and> exportBanksToCSV [\<lparr> InterestRate = Fin (35 / 10), MaximumLoan = Fin 500000,
          MinimumDownPayment = Fin 50000, LoanTerm = Fin 30,
          BankName = ''Alpha,1,1,1,1\<newline>Beta'' \<rparr>]
      = Inr ''Bank Name,Interest Rate (%),Maximum Loan ($),Minimum Down Payment ($),Loan Term (years)\<newline>"Alpha,1,1,1,1\<newline>Beta",3.5,500000,50000,30''
   \<and> importBanksFromCSV ''text/csv''
        ''Bank Name,Interest Rate (%),Maximum Loan ($),Minimum Down Payment ($),Loan Term (years)\<newline>"Alpha,1,1,1,1\<newline>Beta",3.5,500000,50000,30''
      = Inr [\<lparr> InterestRate = Fin 1, MaximumLoan = Fin 1, MinimumDownPayment = Fin 1,
               LoanTerm = Fin 1, BankName = ''Alpha'' \<rparr>,
             \<lparr> InterestRate = Fin (35 / 10), MaximumLoan = Fin 500000,
               MinimumDownPayment = Fin 50000, LoanTerm = Fin 30, BankName = ''Beta'' \<rparr>]
   \<and> CHR '','' \<in> set ''First, Bank''
   \<and> exportBanksToCSV [\<lparr> InterestRate = Fin (35 / 10), MaximumLoan = Fin 500000,
          MinimumDownPayment = Fin 50000, LoanTerm = Fin 30, BankName = [] \<rparr>,
        \<lparr> InterestRate = Fin (35 / 10), MaximumLoan = Fin 500000,
          MinimumDownPayment = Fin 50000, LoanTerm = Fin 30, BankName = ''First, Bank'' \<rparr>]
      = Inr ''Bank Name,Interest Rate (%),Maximum Loan ($),Minimum Down Payment ($),Loan Term (years)\<newline>"",3.5,500000,50000,30\<newline>"First, Bank",3.5,500000,50000,30''
   \<and> importBanksFromCSV ''text/csv''
        ''Bank Name,Interest Rate (%),Maximum Loan ($),Minimum Down Payment ($),Loan Term (years)\<newline>"",3.5,500000,50000,30\<newline>"First, Bank",3.5,500000,50000,30''
      = Inl (RowError 2 ''Invalid or missing Bank Name'')\<close>
proof -
  have written: \<open>exportBanksToCSV [\<lparr> InterestRate = Fin (35 / 10), MaximumLoan = Fin 500000,
          MinimumDownPayment = Fin 50000, LoanTerm = Fin 30,
          BankName = ''Alpha,1,1,1,1\<newline>Beta'' \<rparr>]
      = Inr ''Bank Name,Interest Rate (%),Maximum Loan ($),Minimum Down Payment ($),Loan Term (years)\<newline>"Alpha,1,1,1,1\<newline>Beta",3.5,500000,50000,30''\<close>
    by (simp add: exportBanksToCSV_def csv_content_def csv_headers_def csv_row_def
        printed_numbers quote_def line_feed_def del: number_to_string.simps)
  have lines: \<open>csv_lines ''Bank Name,Interest Rate (%),Maximum Loan ($),Minimum Down Payment ($),Loan Term (years)\<newline>"Alpha,1,1,1,1\<newline>Beta",3.5,500000,50000,30''
      = [''Bank Name,Interest Rate (%),Maximum Loan ($),Minimum Down Payment ($),Loan Term (years)'',
         ''"Alpha,1,1,1,1'', ''Beta",3.5,500000,50000,30'']\<close>
    by (simp add: csv_lines_def line_feed_def trim_def trimStart_def trimEnd_def is_space_def)
  have vals: \<open>row_values ''"Alpha,1,1,1,1'' = [''Alpha'', ''1'', ''1'', ''1'', ''1'']\<close>
      \<open>row_values ''Beta",3.5,500000,50000,30'' = [''Beta'', ''3.5'', ''500000'', ''50000'', ''30'']\<close>
    by (simp_all add: row_values_def strip_quotes_def quote_def trim_def trimStart_def trimEnd_def
        is_space_def)
  have read: \<open>importBanksFromCSV ''text/csv''
        ''Bank Name,Interest Rate (%),Maximum Loan ($),Minimum Down Payment ($),Loan Term (years)\<newline>"Alpha,1,1,1,1\<newline>Beta",3.5,500000,50000,30''
      = Inr [\<lparr> InterestRate = Fin 1, MaximumLoan = Fin 1, MinimumDownPayment = Fin 1,
               LoanTerm = Fin 1, BankName = ''Alpha'' \<rparr>,
             \<lparr> InterestRate = Fin (35 / 10), MaximumLoan = Fin 500000,
               MinimumDownPayment = Fin 50000, LoanTerm = Fin 30, BankName = ''Beta'' \<rparr>]\<close>
    by (simp add: importBanksFromCSV_def parse_row_def csv_headers_def lines vals read_numbers
        header_columns del: split_on.simps)
  have written2: \<open>exportBanksToCSV [\<lparr> InterestRate = Fin (35 / 10), MaximumLoan = Fin 500000,
          MinimumDownPayment = Fin 50000, LoanTerm = Fin 30, BankName = [] \<rparr>,
        \<lparr> InterestRate = Fin (35 / 10), MaximumLoan = Fin 500000,
          MinimumDownPayment = Fin 50000, LoanTerm = Fin 30, BankName = ''First, Bank'' \<rparr>]
      = Inr ''Bank Name,Interest Rate (%),Maximum Loan ($),Minimum Down Payment ($),Loan Term (years)\<newline>"",3.5,500000,50000,30\<newline>"First, Bank",3.5,500000,50000,30''\<close>
    by (simp add: exportBanksToCSV_def csv_content_def csv_headers_def csv_row_def
        printed_numbers quote_def line_feed_def del: number_to_string.simps)
  have lines2: \<open>csv_lines ''Bank Name,Interest Rate (%),Maximum Loan ($),Minimum Down Payment ($),Loan Term (years)\<newline>"",3.5,500000,50000,30\<newline>"First, Bank",3.5,500000,50000,30''
      = [''Bank Name,Interest Rate (%),Maximum Loan ($),Minimum Down Payment ($),Loan Term (years)'',
         ''"",3.5,500000,50000,30'', ''"First, Bank",3.5,500000,50000,30'']\<close>
    by (simp add: csv_lines_def line_feed_def trim_def trimStart_def trimEnd_def is_space_def)
  have vals2: \<open>row_values ''"",3.5,500000,50000,30'' = [[], ''3.5'', ''500000'', ''50000'', ''30'']\<close>
    by (simp add: row_values_def strip_quotes_def quote_def trim_def trimStart_def trimEnd_def
        is_space_def)
  have read2: \<open>importBanksFromCSV ''text/csv''
        ''Bank Name,Interest Rate (%),Maximum Loan ($),Minimum Down Payment ($),Loan Term (years)\<newline>"",3.5,500000,50000,30\<newline>"First, Bank",3.5,500000,50000,30''
      = Inl (RowError 2 ''Invalid or missing Bank Name'')\<close>
    by (simp add: importBanksFromCSV_def parse_row_def csv_headers_def lines2 vals2 read_numbers
        header_columns del: split_on.simps)
  show ?thesis using written read written2 read2 by simp
qed

text \<open>
  C10, amended.  For every collection with a bank whose name has a comma, the export
  succeeds and the import of the exported text does not give the collection back: the
  import splits a row on every comma, also those between the quotes, so no name it
  returns has a comma.  When the name has no line feed, the import fails with a row
  error.  When moreover the banks before it have no line feed in their names and their
  rows are accepted, that is the column error, and it names the row of this bank: the
  header is row 1.
\<close>

theorem csv_round_trip_comma_fails:
  assumes "CHR '','' \<in> set (BankName b)"
  shows "\<exists>content. exportBanksToCSV (pre @ b # post) = Inr content
           \<and> importBanksFromCSV ''text/csv'' content \<noteq> Inr (pre @ b # post)
           \<and> (line_feed \<notin> set (BankName b) \<longrightarrow>
                (\<exists>n msg. importBanksFromCSV ''text/csv'' content = Inl (RowError n msg)))
           \<and> (line_feed \<notin> set (BankName b)
                \<and> (\<forall>x \<in> set pre. line_feed \<notin> set (BankName x) \<and> row_accepted (csv_row x)) \<longrightarrow>
                importBanksFromCSV ''text/csv'' content
                  = Inl (RowError (length pre + 2) ''Invalid number of columns''))"
proof -
  define content where
    "content = join [line_feed] (join '','' csv_headers # map csv_row (pre @ b # post))"
  have written: "exportBanksToCSV (pre @ b # post) = Inr content"
    by (simp add: content_def exportBanksToCSV_nonempty)
  have bad: "length (row_values (csv_row b)) \<noteq> 5"
    using csv_row_columns [OF assms] by (simp add: row_values_def)
  have differs: "importBanksFromCSV ''text/csv'' content \<noteq> Inr (pre @ b # post)"
  proof
    assume "importBanksFromCSV ''text/csv'' content = Inr (pre @ b # post)"
    then have "\<forall>bank \<in> set (pre @ b # post). CHR '','' \<notin> set (BankName bank)"
      by (rule imported_names)
    then show False using assms by simp
  qed
  have rows: "\<exists>before rest. importBanksFromCSV ''text/csv'' content
        = parse_rows 1 (before @ csv_row b # rest)
      \<and> ((\<forall>x \<in> set pre. line_feed \<notin> set (BankName x)) \<longrightarrow> before = map csv_row pre)"
    if lf: "line_feed \<notin> set (BankName b)"
  proof -
    obtain c before rest where c: "exportBanksToCSV (pre @ b # post) = Inr c"
        and l: "csv_lines c = header_line # before @ csv_row b # rest"
        and p: "(\<forall>x \<in> set pre. line_feed \<notin> set (BankName x)) \<longrightarrow> before = map csv_row pre"
      using exported_lines [OF lf, of pre post] by blast
    have "c = content" using c written by simp
    then have "importBanksFromCSV ''text/csv'' content = parse_rows 1 (before @ csv_row b # rest)"
      using l header_line_facts(3) by (simp add: importBanksFromCSV_def csv_headers_def)
    with p show ?thesis by blast
  qed
  have fails: "\<exists>n msg. importBanksFromCSV ''text/csv'' content = Inl (RowError n msg)"
    if lf: "line_feed \<notin> set (BankName b)"
  proof -
    obtain before rest where
      r: "importBanksFromCSV ''text/csv'' content = parse_rows 1 (before @ csv_row b # rest)"
      using rows [OF lf] by blast
    obtain e where e: "parse_rows 1 (before @ csv_row b # rest) = Inl e"
      using parse_rows_stops [OF bad] by blast
    then obtain n msg where "e = RowError n msg" using parse_rows_error by blast
    with r e show ?thesis by simp
  qed
  have columns: "importBanksFromCSV ''text/csv'' content
      = Inl (RowError (length pre + 2) ''Invalid number of columns'')"
    if lf: "line_feed \<notin> set (BankName b)"
      and sound: "\<forall>x \<in> set pre. line_feed \<notin> set (BankName x) \<and> row_accepted (csv_row x)"
  proof -
    obtain rest where
      r: "importBanksFromCSV ''text/csv'' content = parse_rows 1 (map csv_row pre @ csv_row b # rest)"
      using rows [OF lf] sound by auto
    have "\<forall>x \<in> set (map csv_row pre). row_accepted x" using sound by simp
    then have "parse_rows 1 (map csv_row pre @ csv_row b # rest)
        = Inl (RowError (1 + length (map csv_row pre) + 1) ''Invalid number of columns'')"
      using bad by (rule parse_rows_reaches)
    with r show ?thesis by simp
  qed
  show ?thesis using written differs fails columns by blast
qed

theorem csv_round_trip_comma_fails_witness:
  \<open>exportBanksToCSV [\<lparr> InterestRate = Fin (35 / 10), MaximumLoan = Fin 500000,
        MinimumDownPayment = Fin 50000, LoanTerm = Fin 30, BankName = ''Alpha'' \<rparr>,
      \<lparr> InterestRate = Fin (35 / 10), MaximumLoan = Fin 500000,
        MinimumDownPayment = Fin 50000, LoanTerm = Fin 30, BankName = ''First, Bank'' \<rparr>]
     = Inr ''Bank Name,Interest Rate (%),Maximum Loan ($),Minimum Down Payment ($),Loan Term (years)\<newline>"Alpha",3.5,500000,50000,30\<newline>"First, Bank",3.5,500000,50000,30''
   \<and> importBanksFromCSV ''text/csv''
        ''Bank Name,Interest Rate (%),Maximum Loan ($),Minimum Down Payment ($),Loan Term (years)\<newline>"Alpha",3.5,500000,50000,30\<newline>"First, Bank",3.5,500000,50000,30''
     = Inl (RowError 3 ''Invalid number of columns'')\<close>
proof -
  let ?alpha = "\<lparr> InterestRate = Fin (35 / 10), MaximumLoan = Fin 500000,
        MinimumDownPayment = Fin 50000, LoanTerm = Fin 30, BankName = ''Alpha'' \<rparr>"
  let ?first = "\<lparr> InterestRate = Fin (35 / 10), MaximumLoan = Fin 500000,
        MinimumDownPayment = Fin 50000, LoanTerm = Fin 30, BankName = ''First, Bank'' \<rparr>"
  have written: \<open>exportBanksToCSV [?alpha, ?first]
     = Inr ''Bank Name,Interest Rate (%),Maximum Loan ($),Minimum Down Payment ($),Loan Term (years)\<newline>"Alpha",3.5,500000,50000,30\<newline>"First, Bank",3.5,500000,50000,30''\<close>
    by (simp add: exportBanksToCSV_def csv_content_def csv_headers_def csv_row_def
        printed_numbers quote_def line_feed_def del: number_to_string.simps)
  have row: \<open>csv_row ?alpha = ''"Alpha",3.5,500000,50000,30''\<close>
    by (simp add: csv_row_def printed_numbers quote_def del: number_to_string.simps)
  have vals: \<open>row_values ''"Alpha",3.5,500000,50000,30''
      = [''Alpha'', ''3.5'', ''500000'', ''50000'', ''30'']\<close>
    by (simp add: row_values_def strip_quotes_def quote_def trim_def trimStart_def trimEnd_def
        is_space_def)
  have accepted: "row_accepted (csv_row ?alpha)"
    unfolding row
    by (simp add: row_accepted_def parse_row_def csv_headers_def vals read_numbers
        del: split_on.simps)
  show ?thesis
    using csv_round_trip_comma_fails [of ?first "[?alpha]" "[]"] written accepted
    by (simp add: line_feed_def)
qed

section \<open>The arithmetic of the doubles at some inputs\<close>

lemma half_even_small:
  assumes "\<bar>r\<bar> < 1 / 2"
  shows "half_even r = 0"
proof (cases "0 \<le> r")
  case True
  then have "\<lfloor>r\<rfloor> = 0" using assms by (intro floor_unique) simp_all
  then show ?thesis using assms True by (simp add: half_even_def)
next
  case False
  then have "\<lfloor>r\<rfloor> = - 1" using assms by (intro floor_unique) simp_all
  then show ?thesis using assms False by (simp add: half_even_def)
qed

lemma rnd_underflow:
  assumes "\<bar>x\<bar> < pow2 (- 1075)"
  shows "rnd x = Fin 0"
proof -
  have "pow2 (- 1075) \<le> pow2 (- 1022)" by (intro pow2_mono) simp
  then have "\<bar>x\<bar> < pow2 (- 1022)" using assms by linarith
  then have g: "grid x = - 1074" by (rule grid_small)
  have "\<bar>x / pow2 (- 1074)\<bar> = \<bar>x\<bar> / pow2 (- 1074)" by simp
  also have "\<dots> < pow2 (- 1075) / pow2 (- 1074)"
    using assms by (intro divide_strict_right_mono) simp_all
  also have "\<dots> = 1 / 2" using pow2_diff [of "- 1075" "- 1074"] by (simp add: pow2_def)
  finally have "half_even (x / pow2 (- 1074)) = 0" by (rule half_even_small)
  then show ?thesis by (simp add: rnd_def g)
qed

text \<open>A sum can lose its smaller term: \<open>1 + 1e-15 / 1200\<close> is 1.\<close>

lemma sum_loses_small_term: "jadd (Fin 1) (jdiv (Fin (1 / 10 ^ 15)) (Fin 1200)) = Fin 1"
proof -
  have q: "rnd (1 / 1200000000000000000) = Fin (4326914048779023 / 5192296858534827628530496329220096)"
    using rnd_eval [where k = "- 61" and x = "1 / 1200000000000000000" and j = 8653828097558046]
    by (simp add: pow2_def half_even_def)
  have s: "rnd (5192296858534827632857410377999119 / 5192296858534827628530496329220096) = Fin 1"
    using rnd_eval [where k = 0 and x = "5192296858534827632857410377999119 / 5192296858534827628530496329220096" and j = 4503599627370496]
    by (simp add: pow2_def half_even_def)
  show ?thesis using q s by simp
qed

text \<open>A literal beyond the doubles is an infinity, and one below them is 0, which is not
  below 0.\<close>

lemma literal_overflows: "parseFloat_str ''1e309'' = PInf"
proof -
  have "rnd (10 ^ 309) = PInf" by (rule rnd_overflow) (simp add: pow2_def)
  then show ?thesis by (simp add: csv_eval)
qed

lemma literal_underflows:
  "parseFloat_str ''-1e-400'' = Fin 0 \<and> \<not> jless (parseFloat_str ''-1e-400'') (Fin 0)"
proof -
  have "rnd (1 / 10 ^ 400) = Fin 0" by (rule rnd_underflow) (simp add: pow2_def)
  then have "parseFloat_str ''-1e-400'' = Fin 0" by (simp add: csv_eval)
  then show ?thesis by simp
qed

text \<open>\<open>parseInt\<close> rounds the digits it reads: \<open>2^53 + 1\<close> is read as \<open>2^53\<close>.\<close>

lemma digits_are_rounded: "parseInt_str ''9007199254740993'' = Fin 9007199254740992"
proof -
  have "rnd 9007199254740993 = Fin 9007199254740992"
    using rnd_eval [where k = 53 and x = 9007199254740993 and j = 4503599627370496]
    by (simp add: pow2_def half_even_def)
  then show ?thesis by (simp add: csv_eval)
qed

text \<open>
  The double nearest to \<open>1e23\<close> is written \<open>1e+23\<close>, its shortest decimal, and \<open>parseInt\<close>
  reads 1 from it; the digits of the exact value start with 9.
\<close>

lemma parseInt_reads_shortest_digits:
  "rnd (10 ^ 23) = Fin 99999999999999991611392
   \<and> number_to_string (Fin 99999999999999991611392) = ''1e+23''
   \<and> parseInt_num (Fin 99999999999999991611392) = Fin 1"
proof -
  have r: "rnd (10 ^ 23) = Fin 99999999999999991611392"
    using rnd_eval [where k = 76 and x = "10 ^ 23" and j = 5960464477539062]
    by (simp add: pow2_def half_even_def)
  have far: "rnd 90000000000000000000000 \<noteq> Fin 99999999999999991611392"
    by (rule rnd_neq) simp_all
  have v: "shortest_decimal 99999999999999991611392 = 10 ^ 23"
    using r far
    by (simp add: shortest_decimal_def shortest_from_numeral shortest_with_def
        decimal_exponent_def exponent_down_numeral Let_def)
  have e: "decimal_exponent (10 ^ 23) = 23"
    by (simp add: decimal_exponent_def exponent_down_numeral)
  have "number_to_string (Fin 99999999999999991611392) = ''1e+23''"
    using e by (simp add: v positive_to_string_def mantissa_def decimal_digits_def
        nat_digits.simps digit_char_def)
  moreover have "parseInt_num (Fin 99999999999999991611392) = Fin 1"
    using e by (simp add: parseInt_num.simps v leading_digit_def mantissa_def)
  ultimately show ?thesis using r by simp
qed

text \<open>The sum of the doubles nearest to 0.1 and 0.2 is written with 17 digits.\<close>

lemma exponent_up_numeral:
  "exponent_up (numeral k) y
     = (if 1 \<le> y then 0 else exponent_up (pred_numeral k) (y * 10) - 1)"
  by (simp add: numeral_eq_Suc)

lemma string_of_a_sum:
  "number_to_string (jadd (rnd (1 / 10)) (rnd (2 / 10))) = ''0.30000000000000004''"
proof -
  have t1: "rnd (1 / 10) = Fin (3602879701896397 / 36028797018963968)"
    using rnd_eval [where k = "- 4" and x = "1 / 10" and j = 7205759403792794]
    by (simp add: pow2_def half_even_def)
  have t2: "rnd (2 / 10) = Fin (3602879701896397 / 18014398509481984)"
    using rnd_eval [where k = "- 3" and x = "2 / 10" and j = 7205759403792794]
    by (simp add: pow2_def half_even_def)
  have t3: "rnd (3602879701896397 / 36028797018963968 + 3602879701896397 / 18014398509481984)
      = Fin (1351079888211149 / 4503599627370496)"
    using rnd_eval [where k = "- 2"
        and x = "3602879701896397 / 36028797018963968 + 3602879701896397 / 18014398509481984"
        and j = 5404319552844596]
    by (simp add: pow2_def half_even_def)
  have sum: "jadd (rnd (1 / 10)) (rnd (2 / 10)) = Fin (1351079888211149 / 4503599627370496)"
    using t1 t2 t3 by simp
have below: "rnd (3 / 10) = Fin (5404319552844595 / 18014398509481984)"
    using rnd_eval [where k = "- 2" and x = "3 / 10" and j = 5404319552844595]
    by (simp add: pow2_def half_even_def)
  have a1: "rnd (2 / 5) \<noteq> Fin (1351079888211149 / 4503599627370496)" by (rule rnd_neq) simp_all
  have a2: "rnd (31 / 100) \<noteq> Fin (1351079888211149 / 4503599627370496)" by (rule rnd_neq) simp_all
  have a3: "rnd (301 / 1000) \<noteq> Fin (1351079888211149 / 4503599627370496)" by (rule rnd_neq) simp_all
  have a4: "rnd (3001 / 10000) \<noteq> Fin (1351079888211149 / 4503599627370496)" by (rule rnd_neq) simp_all
  have a5: "rnd (30001 / 100000) \<noteq> Fin (1351079888211149 / 4503599627370496)" by (rule rnd_neq) simp_all
  have a6: "rnd (300001 / 1000000) \<noteq> Fin (1351079888211149 / 4503599627370496)" by (rule rnd_neq) simp_all
  have a7: "rnd (3000001 / 10000000) \<noteq> Fin (1351079888211149 / 4503599627370496)" by (rule rnd_neq) simp_all
  have a8: "rnd (30000001 / 100000000) \<noteq> Fin (1351079888211149 / 4503599627370496)" by (rule rnd_neq) simp_all
  have a9: "rnd (300000001 / 1000000000) \<noteq> Fin (1351079888211149 / 4503599627370496)" by (rule rnd_neq) simp_all
  have a10: "rnd (3000000001 / 10000000000) \<noteq> Fin (1351079888211149 / 4503599627370496)" by (rule rnd_neq) simp_all
  have a11: "rnd (30000000001 / 100000000000) \<noteq> Fin (1351079888211149 / 4503599627370496)" by (rule rnd_neq) simp_all
  have a12: "rnd (300000000001 / 1000000000000) \<noteq> Fin (1351079888211149 / 4503599627370496)" by (rule rnd_neq) simp_all
  have a13: "rnd (3000000000001 / 10000000000000) \<noteq> Fin (1351079888211149 / 4503599627370496)" by (rule rnd_neq) simp_all
  have a14: "rnd (30000000000001 / 100000000000000) \<noteq> Fin (1351079888211149 / 4503599627370496)" by (rule rnd_neq) simp_all
  have a15: "rnd (300000000000001 / 1000000000000000) \<noteq> Fin (1351079888211149 / 4503599627370496)" by (rule rnd_neq) simp_all
  have a16: "rnd (3000000000000001 / 10000000000000000) = Fin (5404319552844597 / 18014398509481984)"
    using rnd_eval [where k = "- 2" and x = "3000000000000001 / 10000000000000000" and j = 5404319552844597]
    by (simp add: pow2_def half_even_def)
  have b17: "rnd (7500000000000001 / 25000000000000000) = Fin (1351079888211149 / 4503599627370496)"
    using rnd_eval [where k = "- 2" and x = "7500000000000001 / 25000000000000000" and j = 5404319552844596]
    by (simp add: pow2_def half_even_def)
  have a17: "rnd (6000000000000001 / 20000000000000000) = Fin (1351079888211149 / 4503599627370496)"
    using rnd_eval [where k = "- 2" and x = "6000000000000001 / 20000000000000000" and j = 5404319552844596]
    by (simp add: pow2_def half_even_def)
  have v: "shortest_decimal (1351079888211149 / 4503599627370496)
      = 30000000000000004 / 10 ^ 17"
    using below a1 a2 a3 a4 a5 a6 a7 a8 a9 a10 a11 a12 a13 a14 a15 a16 b17 a17
    by (simp add: shortest_decimal_def shortest_from_numeral shortest_with_def
        decimal_exponent_def exponent_up_numeral Let_def)
  have "number_to_string (Fin (1351079888211149 / 4503599627370496)) = ''0.30000000000000004''"
    by (simp add: v number_eval)
  then show ?thesis by (simp only: sum)
qed

end
